theory Spec2Isabelle
  imports Main "HOL-Library.Multiset" "HOL-Library.Char_ord" "HOL-Library.List_Lexorder"
begin

section \<open>Data model\<close>

text \<open>
  The three input tables of \<^verbatim>\<open>script/samples.py\<close> and \<^verbatim>\<open>script/table1.py\<close>, one record
  per row, a dataframe being the list of its rows in index order. The columns are the
  ones the scripts load. \<^verbatim>\<open>merged_at\<close> is nullable (the scripts test \<^verbatim>\<open>notna()\<close>), and so
  is \<^verbatim>\<open>pr_id\<close> of a comment (\<^verbatim>\<open>table1.py\<close> calls \<^verbatim>\<open>dropna()\<close> on it); the other columns
  hold values. The records of the comments are the rows of the file, with the ids as the
  file has them; what pandas makes of them when it reads the column is
  \<open>read_pr_comments\<close> below. The column \<^verbatim>\<open>id\<close> is named after its table, \<open>id\<close> being the
  identity function of HOL.
\<close>

record repository =
  id_repo :: int
  stars :: int

record pull_request =
  id_pr :: int
  repo_id :: int
  agent :: string
  user :: string
  state :: string
  merged_at :: "string option"
  html_url :: string

text \<open>A row of \<^verbatim>\<open>kept\<close> after \<^verbatim>\<open>kept["is_merged"] = kept["merged_at"].notna()\<close>.\<close>

record kept_pr = pull_request +
  is_merged :: bool

record comment =
  pr_id :: "int option"
  user_type :: string

text \<open>
  The exceptions the modelled code can raise: \<^verbatim>\<open>ValueError\<close> from
  \<^verbatim>\<open>train_test_split\<close>, and pandas' \<^verbatim>\<open>IntCastingNaNError\<close> from \<^verbatim>\<open>astype(int)\<close> on a
  column that holds a missing value.
\<close>

datatype error = ValueError | IntCastingNaNError

section \<open>Configuration\<close>

definition MIN_STARS :: int where
  "MIN_STARS = 500"

definition RANDOM_STATE :: int where
  "RANDOM_STATE = 72"

definition VALIDATE_AGREEMENT_SAMPLE :: int where
  "VALIDATE_AGREEMENT_SAMPLE = 30"

definition AGENTS :: "string list" where
  "AGENTS = [''Claude_Code'', ''Copilot'', ''Cursor'', ''Devin'', ''OpenAI_Codex'']"

definition BOT_LIST :: "string list" where
  "BOT_LIST =
    [''copilot-swe-agent[bot]'',
     ''cursor[bot]'',
     ''gemini-code-assist[bot]'',
     ''copilot-pull-request-reviewer[bot]'',
     ''coderabbitai[bot]'',
     ''ellipsis-dev[bot]'',
     ''greptile-apps[bot]'',
     ''entelligence-ai-pr-reviews[bot]'',
     ''Copilot'',
     ''github-advanced-security[bot]'']"

section \<open>Column operations of pandas\<close>

text \<open>
  An integer column that holds a missing value is a \<^verbatim>\<open>float64\<close> column in pandas: its
  values are the doubles nearest to the integers of the file, so an integer above
  \<open>2^53\<close> in magnitude arrives rounded (to 53 significant bits, ties to the even
  significand). \<open>bit_length\<close> is the one of Python's integers.
\<close>

function bit_length :: "int \<Rightarrow> nat" where
  "bit_length n = (if n \<le> 0 then 0 else Suc (bit_length (n div 2)))"
  by pat_completeness auto
termination
  by (relation "measure nat") auto

definition float64_of_int :: "int \<Rightarrow> int" where
  "float64_of_int i =
     (if \<bar>i\<bar> \<le> 2 ^ 53 then i
      else
        let e = bit_length \<bar>i\<bar> - 53;
            q = \<bar>i\<bar> div 2 ^ e;
            r = \<bar>i\<bar> mod 2 ^ e;
            half = 2 ^ (e - 1);
            m = (if r > half \<or> (r = half \<and> odd q) then q + 1 else q)
        in sgn i * m * 2 ^ e)"

text \<open>
  The cast of a double with an integer value to \<^verbatim>\<open>int64\<close>, as \<^verbatim>\<open>astype(int)\<close> does it with
  the warning of numpy silenced: a value outside the range of \<^verbatim>\<open>int64\<close> becomes
  \<open>- 2^63\<close>. On a column that is \<^verbatim>\<open>int64\<close> already the cast changes nothing; the values
  of such a column lie in the range.
\<close>

definition int64_of_float :: "int \<Rightarrow> int" where
  "int64_of_float v = (if v < - (2 ^ 63) \<or> 2 ^ 63 \<le> v then - (2 ^ 63) else v)"

text \<open>
  \<^verbatim>\<open>read_parquet("pr_comments.parquet", ["pr_id", "user_type"])\<close>: the frame pandas holds
  for the rows of the file. When some \<^verbatim>\<open>pr_id\<close> of the file is missing, the whole column
  is \<^verbatim>\<open>float64\<close>.
\<close>

definition read_pr_comments :: "comment list \<Rightarrow> comment list" where
  "read_pr_comments rows =
     (if None \<in> set (map pr_id rows)
      then map (\<lambda>c. c\<lparr>pr_id := map_option float64_of_int (pr_id c)\<rparr>) rows
      else rows)"

text \<open>
  \<^verbatim>\<open>Series.astype(int)\<close>: \<^verbatim>\<open>IntCastingNaNError\<close> when a value is missing, the cast values
  otherwise. \<^verbatim>\<open>Series.dropna()\<close> keeps the values that are present.
\<close>

fun astype_int :: "int option list \<Rightarrow> error + int list" where
  "astype_int [] = Inr []"
| "astype_int (None # xs) = Inl IntCastingNaNError"
| "astype_int (Some v # xs) =
     (case astype_int xs of Inl e \<Rightarrow> Inl e | Inr vs \<Rightarrow> Inr (int64_of_float v # vs))"

fun dropna :: "'a option list \<Rightarrow> 'a list" where
  "dropna [] = []"
| "dropna (None # xs) = dropna xs"
| "dropna (Some v # xs) = v # dropna xs"

text \<open>\<^verbatim>\<open>kept["is_merged"] = kept["merged_at"].notna()\<close>, row by row.\<close>

definition with_is_merged :: "pull_request \<Rightarrow> kept_pr" where
  "with_is_merged p =
     \<lparr>id_pr = id_pr p, repo_id = repo_id p, agent = agent p, user = user p,
      state = state p, merged_at = merged_at p, html_url = html_url p,
      is_merged = (merged_at p \<noteq> None)\<rparr>"

section \<open>The Selector of \<^verbatim>\<open>samples.py\<close> (module level, lines 62 to 81)\<close>

definition repo_ids :: "repository list \<Rightarrow> int set" where
  "repo_ids repos = set (map id_repo (filter (\<lambda>r. stars r \<ge> MIN_STARS) repos))"

definition selected :: "repository list \<Rightarrow> pull_request list \<Rightarrow> pull_request list" where
  "selected repos prs =
     filter (\<lambda>p. repo_id p \<in> repo_ids repos \<and> state p = ''closed'') prs"

definition bot_assigned :: "repository list \<Rightarrow> pull_request list \<Rightarrow> pull_request list" where
  "bot_assigned repos prs = filter (\<lambda>p. user p \<in> set BOT_LIST) (selected repos prs)"

text \<open>
  \<^verbatim>\<open>set(comments.loc[comments["user_type"] == "User", "pr_id"].astype(int))\<close>, of the
  frame read at line 59: no \<^verbatim>\<open>dropna()\<close> here, so a comment of a user with a missing
  \<^verbatim>\<open>pr_id\<close> makes the cast raise.
\<close>

definition human_commented_ids :: "comment list \<Rightarrow> error + int set" where
  "human_commented_ids rows =
     (let comments = read_pr_comments rows in
      case astype_int (map pr_id (filter (\<lambda>c. user_type c = ''User'') comments)) of
        Inl e \<Rightarrow> Inl e
      | Inr ids \<Rightarrow> Inr (set ids))"

definition excluded_ids :: "repository list \<Rightarrow> pull_request list \<Rightarrow> int set \<Rightarrow> int set" where
  "excluded_ids repos prs hc =
     set (map id_pr (filter (\<lambda>p. id_pr p \<notin> hc) (bot_assigned repos prs)))"

definition kept :: "repository list \<Rightarrow> pull_request list \<Rightarrow> int set \<Rightarrow> kept_pr list" where
  "kept repos prs hc =
     map with_is_merged
       (filter (\<lambda>p. id_pr p \<notin> excluded_ids repos prs hc) (selected repos prs))"

section \<open>The Aggregator (Table 1)\<close>

record table_row =
  row_agent :: string
  total :: int
  merged :: int
  rejected :: int

text \<open>
  \<^verbatim>\<open>kept.groupby("agent").agg(total=("id", "count"), merged=("is_merged", "sum")).reset_index()\<close>:
  one row per agent that occurs in \<^verbatim>\<open>kept\<close>, the group keys in ascending order
  (\<^verbatim>\<open>groupby\<close> sorts them), with the number of rows of the group and the sum of its
  booleans.
\<close>

definition groupby_agent_agg :: "kept_pr list \<Rightarrow> (string \<times> int \<times> int) list" where
  "groupby_agent_agg k =
     map (\<lambda>a. let g = filter (\<lambda>p. agent p = a) k
              in (a, int (length g), (\<Sum>p\<leftarrow>g. if is_merged p then 1 else 0)))
       (sort (remdups (map agent k)))"

text \<open>\<^verbatim>\<open>table["rejected"] = table["total"] - table["merged"]\<close>.\<close>

fun with_rejected :: "string \<times> int \<times> int \<Rightarrow> table_row" where
  "with_rejected (a, t, m) = \<lparr>row_agent = a, total = t, merged = m, rejected = t - m\<rparr>"

text \<open>Lines 83 to 89 of \<^verbatim>\<open>samples.py\<close>.\<close>

definition table1 :: "repository list \<Rightarrow> pull_request list \<Rightarrow> int set \<Rightarrow> table_row list" where
  "table1 repos prs hc =
     filter (\<lambda>r. row_agent r \<in> set AGENTS)
       (map with_rejected (groupby_agent_agg (kept repos prs hc)))"

definition combined_accepted ::
    "repository list \<Rightarrow> pull_request list \<Rightarrow> int set \<Rightarrow> kept_pr list" where
  "combined_accepted repos prs hc = filter (\<lambda>p. is_merged p) (kept repos prs hc)"

definition combined_rejected ::
    "repository list \<Rightarrow> pull_request list \<Rightarrow> int set \<Rightarrow> kept_pr list" where
  "combined_rejected repos prs hc = filter (\<lambda>p. \<not> is_merged p) (kept repos prs hc)"

definition ACCEPT_SAMPLE_SIZE :: "repository list \<Rightarrow> pull_request list \<Rightarrow> int set \<Rightarrow> int" where
  "ACCEPT_SAMPLE_SIZE repos prs hc = sum_list (map merged (table1 repos prs hc))"

definition REJECT_SAMPLE_SIZE :: "repository list \<Rightarrow> pull_request list \<Rightarrow> int set \<Rightarrow> int" where
  "REJECT_SAMPLE_SIZE repos prs hc = sum_list (map rejected (table1 repos prs hc))"

section \<open>\<^verbatim>\<open>main()\<close> of \<^verbatim>\<open>table1.py\<close> (lines 128 to 183)\<close>

text \<open>The locals of \<^verbatim>\<open>main\<close> that it prints or derives its output from.\<close>

record main_locals =
  main_selected :: "pull_request list"
  main_selected_ids :: "int set"
  main_bot_assigned :: "pull_request list"
  main_user_commented_pr_ids :: "int set"
  main_excluded :: "pull_request list"
  main_excluded_ids :: "int set"
  main_kept_ids :: "int set"
  main_kept :: "kept_pr list"
  main_table1 :: "table_row list"
  total_total :: int
  total_merged :: int
  total_rejected :: int

text \<open>
  The frames are read at lines 111 to 121; the repositories and the pull requests hold no
  missing value in the columns used, so their integer columns are exact.
  \<^verbatim>\<open>.dropna().astype(int).unique().tolist()\<close> casts the values that are present, which
  cannot raise.

  \<^verbatim>\<open>order = {a: i for i, a in enumerate(AGENTS)}\<close> is built by one store per entry;
  \<^verbatim>\<open>table1["agent"].map(order)\<close> gives a missing value for a key that is absent, which
  \<^verbatim>\<open>sort_values\<close> puts last. The keys of the rows are pairwise different agents of the
  roster, so every sorting algorithm returns the same frame.
\<close>

definition main :: "repository list \<Rightarrow> pull_request list \<Rightarrow> comment list \<Rightarrow> main_locals" where
  "main repos prs rows =
     (let comments = read_pr_comments rows;
          repo_ids = set (map id_repo (filter (\<lambda>r. stars r \<ge> MIN_STARS) repos));
          selected = filter (\<lambda>p. repo_id p \<in> repo_ids \<and> state p = ''closed'') prs;
          selected_ids = set (map id_pr selected);
          bot_assigned = filter (\<lambda>p. user p \<in> set BOT_LIST) selected;
          user_commented_pr_ids =
            set (remdups (map int64_of_float
              (dropna (map pr_id (filter (\<lambda>c. user_type c = ''User'') comments)))));
          excluded = filter (\<lambda>p. id_pr p \<notin> user_commented_pr_ids) bot_assigned;
          excluded_ids = set (map id_pr excluded);
          kept_ids = selected_ids - excluded_ids;
          kept = map with_is_merged (filter (\<lambda>p. id_pr p \<notin> excluded_ids) selected);
          table = map with_rejected (groupby_agent_agg kept);
          order = fold (\<lambda>(i, a) m. m(a \<mapsto> i)) (enumerate 0 AGENTS) Map.empty;
          table1 =
            sort_key (\<lambda>r. case order (row_agent r) of Some i \<Rightarrow> i | None \<Rightarrow> length AGENTS)
              (filter (\<lambda>r. row_agent r \<in> set AGENTS) table)
      in \<lparr>main_selected = selected,
          main_selected_ids = selected_ids,
          main_bot_assigned = bot_assigned,
          main_user_commented_pr_ids = user_commented_pr_ids,
          main_excluded = excluded,
          main_excluded_ids = excluded_ids,
          main_kept_ids = kept_ids,
          main_kept = kept,
          main_table1 = table1,
          total_total = sum_list (map total table1),
          total_merged = sum_list (map merged table1),
          total_rejected = sum_list (map rejected table1)\<rparr>)"

section \<open>The Sampler of \<^verbatim>\<open>samples.py\<close>\<close>

subsection \<open>The stratified split of scikit-learn\<close>

text \<open>
  \<^verbatim>\<open>stratified_n_sample\<close> calls \<^verbatim>\<open>sklearn.model_selection.train_test_split\<close> with an
  integer \<^verbatim>\<open>test_size\<close>, \<^verbatim>\<open>stratify\<close> and \<^verbatim>\<open>random_state\<close>. The library is not part of the
  repository; what is modelled of it is the part that decides whether the call returns:
  the checks of \<^verbatim>\<open>_validate_shuffle_split\<close> and of \<^verbatim>\<open>StratifiedShuffleSplit\<close>, each of
  which raises \<^verbatim>\<open>ValueError\<close>. The indices the split then draws depend on the generator and
  on floating-point allocation; they are the parameter \<open>draw\<close>, of which the theorems
  assume at most \<open>valid_draw\<close>.

  A generator is either the one \<^verbatim>\<open>check_random_state\<close> makes from an integer seed, or
  the process-wide generator of numpy in whatever state a run finds it.
\<close>

datatype generator = RandomState int | Global_Generator nat

type_synonym draw = "generator \<Rightarrow> string list \<Rightarrow> nat \<Rightarrow> nat \<Rightarrow> nat list \<times> nat list"

fun check_random_state :: "generator \<Rightarrow> int option \<Rightarrow> generator" where
  "check_random_state ambient None = ambient"
| "check_random_state ambient (Some seed) = RandomState seed"

text \<open>\<^verbatim>\<open>np.bincount\<close> of the classes of \<^verbatim>\<open>np.unique(y)\<close>.\<close>

definition class_counts :: "string list \<Rightarrow> nat list" where
  "class_counts y = map (count_list y) (sort (remdups y))"

text \<open>
  The checks of the library for an integer \<^verbatim>\<open>test_size\<close> and no \<^verbatim>\<open>train_size\<close>, each
  raising \<^verbatim>\<open>ValueError\<close>: the test size must be positive and smaller than the number of
  samples; the train size \<^verbatim>\<open>n_samples - n_test\<close> must not be 0; the labels must have the
  length of the frame (they have, in every call of the repository); the least
  populated class must have at least 2 members ("The least populated class in y has
  only 1 member, which is too few"); and neither the train size nor the test size may be
  smaller than the number of classes ("The train_size = ... should be greater or equal
  to the number of classes = ..."). \<open>split_refused\<close> holds when one of them fails.
\<close>

definition split_refused :: "nat \<Rightarrow> int \<Rightarrow> string list \<Rightarrow> bool" where
  "split_refused n_samples test_size y =
     (let n_test = test_size;
          n_train = int n_samples - n_test;
          n_classes = int (length (class_counts y))
      in test_size \<ge> int n_samples \<or> test_size \<le> 0
         \<or> n_train = 0
         \<or> length y \<noteq> n_samples
         \<or> Min (set (class_counts y)) < 2
         \<or> n_train < n_classes
         \<or> n_test < n_classes)"

definition train_test_split ::
    "draw \<Rightarrow> generator \<Rightarrow> 'a list \<Rightarrow> int \<Rightarrow> string list \<Rightarrow> int option
      \<Rightarrow> error + ('a list \<times> 'a list)" where
  "train_test_split draw ambient df test_size stratify random_state =
     (if split_refused (length df) test_size stratify then Inl ValueError
      else
        let n_test = nat test_size;
            n_train = length df - n_test;
            rng = check_random_state ambient random_state;
            (train, test) = draw rng stratify n_train n_test
        in Inr (map ((!) df) train, map ((!) df) test))"

text \<open>
  What the library guarantees of the indices it draws once the checks have passed: the
  train and test indices together are the row positions, each once, and there are
  \<open>n_train\<close> train indices. The rows are then taken at these positions
  (\<^verbatim>\<open>_safe_indexing\<close>), none of which lies outside the frame.
\<close>

definition valid_draw :: "draw \<Rightarrow> bool" where
  "valid_draw draw =
     (\<forall>g y n_train n_test.
        0 < n_train \<and> 0 < n_test \<and> n_train + n_test = length y \<longrightarrow>
        (case draw g y n_train n_test of
           (train, test) \<Rightarrow>
             mset train + mset test = mset [0..<length y] \<and> length train = n_train))"

text \<open>
  One draw that meets \<open>valid_draw\<close>, for evaluating the pipeline on concrete tables: the
  first \<open>n_train\<close> positions are the train indices.
\<close>

definition first_rows :: draw where
  "first_rows g y n_train n_test = ([0..<n_train], [n_train..<length y])"

text \<open>
  A second draw, for comparing two runs: it agrees with \<open>first_rows\<close> on every generator
  made from a seed, and takes the last rows as the train rows when it is given the
  process-wide generator.
\<close>

definition last_rows_unseeded :: draw where
  "last_rows_unseeded g y n_train n_test =
     (case g of
        RandomState seed \<Rightarrow> ([0..<n_train], [n_train..<length y])
      | Global_Generator k \<Rightarrow> ([n_test..<length y], [0..<n_test]))"

subsection \<open>\<^verbatim>\<open>stratified_n_sample\<close> (lines 38 to 50)\<close>

definition stratified_n_sample ::
    "draw \<Rightarrow> generator \<Rightarrow> 'a list \<Rightarrow> int \<Rightarrow> ('a \<Rightarrow> string) \<Rightarrow> error + ('a list \<times> 'a list)" where
  "stratified_n_sample draw ambient df n col =
     (let n = min n (int (length df)) in
      if n = 0 then Inr ([], df)
      else if n = int (length df) then Inr (df, [])
      else train_test_split draw ambient df (int (length df) - n) (map col df)
             (Some RANDOM_STATE))"

subsection \<open>The four samples (lines 99 to 129)\<close>

record sample_frames =
  sample_check_rejected :: "kept_pr list"
  reject_remaining :: "kept_pr list"
  sample_check_accepts :: "kept_pr list"
  accept_remaining :: "kept_pr list"
  manual_check_rejected :: "kept_pr list"
  manual_check_accepted :: "kept_pr list"

definition draw_samples ::
    "draw \<Rightarrow> generator \<Rightarrow> repository list \<Rightarrow> pull_request list \<Rightarrow> int set
      \<Rightarrow> error + sample_frames" where
  "draw_samples draw ambient repos prs hc =
     (case stratified_n_sample draw ambient (combined_rejected repos prs hc)
             VALIDATE_AGREEMENT_SAMPLE agent of
        Inl e \<Rightarrow> Inl e
      | Inr (scr, rr) \<Rightarrow>
     (case stratified_n_sample draw ambient (combined_accepted repos prs hc)
             VALIDATE_AGREEMENT_SAMPLE agent of
        Inl e \<Rightarrow> Inl e
      | Inr (sca, ar) \<Rightarrow>
     (case stratified_n_sample draw ambient rr (REJECT_SAMPLE_SIZE repos prs hc) agent of
        Inl e \<Rightarrow> Inl e
      | Inr (mcr, _) \<Rightarrow>
     (case stratified_n_sample draw ambient ar (ACCEPT_SAMPLE_SIZE repos prs hc) agent of
        Inl e \<Rightarrow> Inl e
      | Inr (mca, _) \<Rightarrow>
          Inr \<lparr>sample_check_rejected = scr, reject_remaining = rr,
               sample_check_accepts = sca, accept_remaining = ar,
               manual_check_rejected = mcr, manual_check_accepted = mca\<rparr>))))"

text \<open>
  \<^verbatim>\<open>frame[EXPORT_COLS].to_csv(..., index=False)\<close>: the rows written, in order, as the
  values of the columns \<^verbatim>\<open>id\<close>, \<^verbatim>\<open>html_url\<close>, \<^verbatim>\<open>agent\<close>.
\<close>

definition EXPORT_COLS :: "kept_pr \<Rightarrow> int \<times> string \<times> string" where
  "EXPORT_COLS p = (id_pr p, html_url p, agent p)"

record csv_files =
  sample_check_rejected_csv :: "(int \<times> string \<times> string) list"
  sample_check_accepts_csv :: "(int \<times> string \<times> string) list"
  manual_check_rejected_csv :: "(int \<times> string \<times> string) list"
  manual_check_accepted_csv :: "(int \<times> string \<times> string) list"

text \<open>The whole script: the files it writes, or the exception that ends it.\<close>

definition samples_py ::
    "draw \<Rightarrow> generator \<Rightarrow> repository list \<Rightarrow> pull_request list \<Rightarrow> comment list
      \<Rightarrow> error + csv_files" where
  "samples_py draw ambient repos prs comments =
     (case human_commented_ids comments of
        Inl e \<Rightarrow> Inl e
      | Inr hc \<Rightarrow>
          (case draw_samples draw ambient repos prs hc of
             Inl e \<Rightarrow> Inl e
           | Inr f \<Rightarrow>
               Inr \<lparr>sample_check_rejected_csv = map EXPORT_COLS (sample_check_rejected f),
                    sample_check_accepts_csv = map EXPORT_COLS (sample_check_accepts f),
                    manual_check_rejected_csv = map EXPORT_COLS (manual_check_rejected f),
                    manual_check_accepted_csv = map EXPORT_COLS (manual_check_accepted f)\<rparr>))"

text \<open>
  The contents of the four files, in the order lines 118 to 129 write them. The writer
  \<^verbatim>\<open>to_csv\<close> of pandas is taken as it is: a function from the rows of a frame to the bytes
  of its file.
\<close>

definition files_written ::
    "((int \<times> string \<times> string) list \<Rightarrow> string) \<Rightarrow> csv_files \<Rightarrow> string list" where
  "files_written to_csv out =
     [to_csv (sample_check_rejected_csv out),
      to_csv (sample_check_accepts_csv out),
      to_csv (manual_check_rejected_csv out),
      to_csv (manual_check_accepted_csv out)]"

section \<open>Concrete tables\<close>

text \<open>
  A small instance of the three tables. Repository 1 has enough stars, repository 2 has
  not. Pull request 10 is a merged one of a person; 11 sits in repository 2; 20 is of a
  bot and has no comment of a user; 21 is of a bot and has one; 22 is of an agent outside
  the roster; 23 is still open.
\<close>

definition scenario_repos :: "repository list" where
  "scenario_repos = [\<lparr>id_repo = 1, stars = 600\<rparr>, \<lparr>id_repo = 2, stars = 100\<rparr>]"

definition scenario_prs :: "pull_request list" where
  "scenario_prs =
    [\<lparr>id_pr = 10, repo_id = 1, agent = ''Devin'', user = ''alice'', state = ''closed'',
      merged_at = Some ''2024-01-01'', html_url = ''https://example.org/pull/10''\<rparr>,
     \<lparr>id_pr = 11, repo_id = 2, agent = ''Devin'', user = ''bob'', state = ''closed'',
      merged_at = None, html_url = ''https://example.org/pull/11''\<rparr>,
     \<lparr>id_pr = 20, repo_id = 1, agent = ''Cursor'', user = ''cursor[bot]'', state = ''closed'',
      merged_at = None, html_url = ''https://example.org/pull/20''\<rparr>,
     \<lparr>id_pr = 21, repo_id = 1, agent = ''Copilot'', user = ''Copilot'', state = ''closed'',
      merged_at = Some ''2024-02-01'', html_url = ''https://example.org/pull/21''\<rparr>,
     \<lparr>id_pr = 22, repo_id = 1, agent = ''Jules'', user = ''carol'', state = ''closed'',
      merged_at = None, html_url = ''https://example.org/pull/22''\<rparr>,
     \<lparr>id_pr = 23, repo_id = 1, agent = ''Devin'', user = ''dave'', state = ''open'',
      merged_at = None, html_url = ''https://example.org/pull/23''\<rparr>]"

definition scenario_comments :: "comment list" where
  "scenario_comments =
    [\<lparr>pr_id = Some 21, user_type = ''User''\<rparr>,
     \<lparr>pr_id = Some 20, user_type = ''Bot''\<rparr>,
     \<lparr>pr_id = None, user_type = ''Bot''\<rparr>]"

text \<open>
  Tables with an id above \<open>2^53\<close>: one closed pull request of a bot in repository 1, with
  the id \<open>2^53 + 1\<close>, one comment of a user on it, and one comment of a bot whose \<^verbatim>\<open>pr_id\<close>
  is missing.
\<close>

definition rounding_prs :: "pull_request list" where
  "rounding_prs =
    [\<lparr>id_pr = 9007199254740993, repo_id = 1, agent = ''Cursor'', user = ''cursor[bot]'',
      state = ''closed'', merged_at = None, html_url = ''https://example.org/pull/big''\<rparr>]"

definition rounding_comments :: "comment list" where
  "rounding_comments =
    [\<lparr>pr_id = Some 9007199254740993, user_type = ''User''\<rparr>,
     \<lparr>pr_id = None, user_type = ''Bot''\<rparr>]"

text \<open>
  A table of 66 closed pull requests of people in repository 1, the first 33 merged and
  the other 33 not; every third one is of an agent outside the roster, the others are of
  Devin. Each pool has 22 rows of Devin and 11 of the other agent, and its first 30 rows
  have them in the same proportion, 20 and 10.
\<close>

definition sampling_pr :: "nat \<Rightarrow> pull_request" where
  "sampling_pr i =
     \<lparr>id_pr = int i, repo_id = 1,
      agent = (if i mod 3 = 2 then ''Jules'' else ''Devin''),
      user = ''alice'', state = ''closed'',
      merged_at = (if i < 33 then Some ''2024-03-01'' else None),
      html_url = ''https://example.org/pull''\<rparr>"

definition sampling_prs :: "pull_request list" where
  "sampling_prs = map sampling_pr [0..<66]"

text \<open>
  The frames \<^verbatim>\<open>samples.py\<close> draws from that table when the split takes the first rows.
\<close>

definition sampling_frames :: sample_frames where
  "sampling_frames =
     \<lparr>sample_check_rejected = map (with_is_merged \<circ> sampling_pr) [33..<63],
      reject_remaining = map (with_is_merged \<circ> sampling_pr) [63..<66],
      sample_check_accepts = map (with_is_merged \<circ> sampling_pr) [0..<30],
      accept_remaining = map (with_is_merged \<circ> sampling_pr) [30..<33],
      manual_check_rejected = map (with_is_merged \<circ> sampling_pr) [63..<66],
      manual_check_accepted = map (with_is_merged \<circ> sampling_pr) [30..<33]\<rparr>"

text \<open>
  Two pools of kept pull requests for the sampler: one in which the agent Cursor has a
  single row, and one with two rows for each of two agents.
\<close>

definition pool_row :: "int \<Rightarrow> string \<Rightarrow> kept_pr" where
  "pool_row i a =
     with_is_merged
       \<lparr>id_pr = i, repo_id = 1, agent = a, user = ''alice'', state = ''closed'',
        merged_at = None, html_url = ''https://example.org/pull''\<rparr>"

definition lone_stratum_pool :: "kept_pr list" where
  "lone_stratum_pool = [pool_row 1 ''Devin'', pool_row 2 ''Devin'', pool_row 3 ''Cursor'']"

definition two_strata_pool :: "kept_pr list" where
  "two_strata_pool =
     [pool_row 1 ''Devin'', pool_row 2 ''Cursor'', pool_row 3 ''Devin'', pool_row 4 ''Cursor'']"

section \<open>The Selector: partition\<close>

subsection \<open>Casting and dropping missing values\<close>

lemma astype_int_Inr:
  "astype_int xs = Inr vs \<Longrightarrow> None \<notin> set xs \<and> vs = map int64_of_float (dropna xs)"
proof (induction xs arbitrary: vs rule: astype_int.induct)
  case 1
  then show ?case by simp
next
  case (2 xs)
  then show ?case by simp
next
  case (3 v xs)
  then show ?case by (auto split: sum.splits)
qed

lemma astype_int_dropna:
  "None \<notin> set xs \<Longrightarrow> astype_int xs = Inr (map int64_of_float (dropna xs))"
  by (induction xs rule: astype_int.induct) auto

lemma astype_int_missing: "None \<in> set xs \<Longrightarrow> astype_int xs = Inl IntCastingNaNError"
  by (induction xs rule: astype_int.induct) auto

lemma set_dropna: "set (dropna xs) = {v. Some v \<in> set xs}"
  by (induction xs rule: dropna.induct) auto

lemma float64_of_int_exact: "\<bar>i\<bar> \<le> 2 ^ 53 \<Longrightarrow> float64_of_int i = i"
  by (simp add: float64_of_int_def)

lemma int64_of_float_exact: "\<bar>v\<bar> \<le> 2 ^ 53 \<Longrightarrow> int64_of_float v = v"
  unfolding int64_of_float_def by simp linarith

text \<open>The frame that is read, row by row.\<close>

lemma read_pr_comments_rows:
  "read_pr_comments rows =
     map (\<lambda>c. c\<lparr>pr_id := map_option
            (if None \<in> set (map pr_id rows) then float64_of_int else (\<lambda>v. v)) (pr_id c)\<rparr>) rows"
proof (cases "None \<in> set (map pr_id rows)")
  case True
  then show ?thesis by (simp add: read_pr_comments_def)
next
  case False
  have "map (\<lambda>c. c\<lparr>pr_id := map_option (\<lambda>v. v) (pr_id c)\<rparr>) rows = rows"
    by (induction rows) (simp_all add: option.map_ident)
  with False show ?thesis by (simp add: read_pr_comments_def)
qed

lemma user_pr_ids_read:
  "map pr_id (filter (\<lambda>c. user_type c = ''User'') (read_pr_comments rows)) =
     map (map_option (if None \<in> set (map pr_id rows) then float64_of_int else (\<lambda>v. v)))
       (map pr_id (filter (\<lambda>c. user_type c = ''User'') rows))"
  unfolding read_pr_comments_rows [of rows]
  by (simp add: filter_map comp_def)

lemma dropna_map_option: "dropna (map (map_option f) xs) = map f (dropna xs)"
  by (induction xs rule: dropna.induct) simp_all

lemma None_in_map_option: "None \<in> set (map (map_option f) xs) \<longleftrightarrow> None \<in> set xs"
  by (induction xs) auto

text \<open>
  The set of ids both scripts get from the comments of users: the ids of the file, sent
  through the column and the cast.
\<close>

lemma cast_user_ids:
  "set (map int64_of_float
     (dropna (map pr_id (filter (\<lambda>c. user_type c = ''User'') (read_pr_comments rows))))) =
   (\<lambda>v. int64_of_float
     ((if None \<in> set (map pr_id rows) then float64_of_int else (\<lambda>v. v)) v)) `
     {i. \<exists>c\<in>set rows. user_type c = ''User'' \<and> pr_id c = Some i}"
proof -
  let ?ld = "if None \<in> set (map pr_id rows) then float64_of_int else (\<lambda>v. v)"
  let ?col = "map pr_id (filter (\<lambda>c. user_type c = ''User'') rows)"
  have ids: "set (dropna ?col) = {i. \<exists>c\<in>set rows. user_type c = ''User'' \<and> pr_id c = Some i}"
    by (auto simp: set_dropna image_iff)
  have "set (map int64_of_float
      (dropna (map pr_id (filter (\<lambda>c. user_type c = ''User'') (read_pr_comments rows))))) =
      set (map int64_of_float (map ?ld (dropna ?col)))"
    by (simp only: user_pr_ids_read dropna_map_option)
  also have "\<dots> = (\<lambda>v. int64_of_float (?ld v)) ` set (dropna ?col)"
    by (simp only: map_map comp_def set_map)
  finally show ?thesis by (simp only: ids)
qed

lemma cast_user_ids_exact:
  assumes "\<forall>c\<in>set rows. user_type c = ''User'' \<longrightarrow> (\<forall>v. pr_id c = Some v \<longrightarrow> \<bar>v\<bar> \<le> 2 ^ 53)"
  shows "set (map int64_of_float
     (dropna (map pr_id (filter (\<lambda>c. user_type c = ''User'') (read_pr_comments rows))))) =
     {i. \<exists>c\<in>set rows. user_type c = ''User'' \<and> pr_id c = Some i}"
proof -
  let ?ids = "{i. \<exists>c\<in>set rows. user_type c = ''User'' \<and> pr_id c = Some i}"
  let ?f = "\<lambda>v. int64_of_float
      ((if None \<in> set (map pr_id rows) then float64_of_int else (\<lambda>v. v)) v)"
  have exact: "?f v = v" if "v \<in> ?ids" for v
  proof -
    from that obtain c where "c \<in> set rows" "user_type c = ''User''" "pr_id c = Some v"
      by blast
    with assms have "\<bar>v\<bar> \<le> 2 ^ 53" by blast
    then show ?thesis by (simp add: float64_of_int_exact int64_of_float_exact)
  qed
  have "?f ` ?ids = ?ids"
  proof (rule set_eqI)
    fix v
    show "v \<in> ?f ` ?ids \<longleftrightarrow> v \<in> ?ids"
    proof
      assume "v \<in> ?f ` ?ids"
      then obtain w where w: "w \<in> ?ids" "v = ?f w" by (rule imageE)
      with exact [OF w(1)] show "v \<in> ?ids" by simp
    next
      assume v: "v \<in> ?ids"
      from exact [OF v] have "v = ?f v" by simp
      with v show "v \<in> ?f ` ?ids" by (rule rev_image_eqI)
    qed
  qed
  then show ?thesis by (simp only: cast_user_ids)
qed

lemma human_commented_ids_Inr:
  assumes "human_commented_ids rows = Inr hc"
  shows "hc = set (map int64_of_float
     (dropna (map pr_id (filter (\<lambda>c. user_type c = ''User'') (read_pr_comments rows)))))"
proof -
  from assms obtain ids where
    ids: "astype_int (map pr_id (filter (\<lambda>c. user_type c = ''User'') (read_pr_comments rows)))
      = Inr ids"
    and hc: "hc = set ids"
    by (auto simp: human_commented_ids_def Let_def split: sum.splits)
  from astype_int_Inr [OF ids] hc show ?thesis by simp
qed

lemma truncate_with_is_merged: "pull_request.truncate (with_is_merged p) = p"
  by (simp add: with_is_merged_def pull_request.truncate_def)

lemma id_pr_with_is_merged: "id_pr (with_is_merged p) = id_pr p"
  by (simp add: with_is_merged_def)

lemma excluded_ids_eq: "excluded_ids repos prs hc = id_pr ` set (bot_assigned repos prs) - hc"
  by (auto simp: excluded_ids_def)

lemma selected_distinct_ids:
  assumes "distinct (map id_pr prs)" "p \<in> set (selected repos prs)"
  shows "id_pr p \<in> id_pr ` set (bot_assigned repos prs) \<longleftrightarrow> user p \<in> set BOT_LIST"
proof -
  have inj: "inj_on id_pr (set prs)" using assms(1) by (simp add: distinct_map)
  have sub: "set (selected repos prs) \<subseteq> set prs" by (auto simp: selected_def)
  show ?thesis
  proof
    assume "id_pr p \<in> id_pr ` set (bot_assigned repos prs)"
    then obtain q where q: "q \<in> set (selected repos prs)" "user q \<in> set BOT_LIST" "id_pr q = id_pr p"
      by (auto simp: bot_assigned_def)
    with inj sub assms(2) have "q = p" by (meson inj_onD subsetD)
    with q show "user p \<in> set BOT_LIST" by simp
  next
    assume "user p \<in> set BOT_LIST"
    with assms(2) show "id_pr p \<in> id_pr ` set (bot_assigned repos prs)"
      by (auto simp: bot_assigned_def)
  qed
qed


lemma kept_truncate: "map pull_request.truncate (kept repos prs hc) =
        filter (\<lambda>p. id_pr p \<notin> excluded_ids repos prs hc) (selected repos prs)"
  by (simp add: kept_def comp_def truncate_with_is_merged)

lemma kept_ids: "id_pr ` set (kept repos prs hc) =
        id_pr ` set (selected repos prs) - excluded_ids repos prs hc"
  by (auto simp: kept_def id_pr_with_is_merged image_iff)

lemma bot_assigned_subset: "set (bot_assigned repos prs) \<subseteq> set (selected repos prs)"
  by (auto simp: bot_assigned_def)

lemma excluded_iff:
  assumes "distinct (map id_pr prs)" "p \<in> set (selected repos prs)"
  shows "id_pr p \<in> excluded_ids repos prs hc \<longleftrightarrow> user p \<in> set BOT_LIST \<and> id_pr p \<notin> hc"
  using selected_distinct_ids [OF assms] by (simp add: excluded_ids_eq)


subsection \<open>\<^verbatim>\<open>main\<close> of \<^verbatim>\<open>table1.py\<close> in terms of the module-level definitions\<close>

lemma main_unfold:
  "main repos prs comments =
     (let uc = set (remdups (map int64_of_float (dropna (map pr_id
                 (filter (\<lambda>c. user_type c = ''User'') (read_pr_comments comments))))));
          order = fold (\<lambda>(i, a) m. m(a \<mapsto> i)) (enumerate 0 AGENTS) Map.empty;
          t1 = sort_key (\<lambda>r. case order (row_agent r) of Some i \<Rightarrow> i | None \<Rightarrow> length AGENTS)
                 (table1 repos prs uc)
      in \<lparr>main_selected = selected repos prs,
          main_selected_ids = set (map id_pr (selected repos prs)),
          main_bot_assigned = bot_assigned repos prs,
          main_user_commented_pr_ids = uc,
          main_excluded = filter (\<lambda>p. id_pr p \<notin> uc) (bot_assigned repos prs),
          main_excluded_ids = excluded_ids repos prs uc,
          main_kept_ids = set (map id_pr (selected repos prs)) - excluded_ids repos prs uc,
          main_kept = kept repos prs uc,
          main_table1 = t1,
          total_total = sum_list (map total t1),
          total_merged = sum_list (map merged t1),
          total_rejected = sum_list (map rejected t1)\<rparr>)"
  unfolding main_def Let_def table1_def kept_def excluded_ids_def bot_assigned_def selected_def
    repo_ids_def
  by (rule refl)

lemma main_user_commented_pr_ids_eq:
  "main_user_commented_pr_ids (main repos prs comments) =
     set (map int64_of_float (dropna (map pr_id
       (filter (\<lambda>c. user_type c = ''User'') (read_pr_comments comments)))))"
  unfolding main_unfold Let_def by (simp only: main_locals.select_convs set_remdups)

lemma main_selected_eq: "main_selected (main repos prs comments) = selected repos prs"
  unfolding main_unfold Let_def by (simp only: main_locals.select_convs)

lemma main_selected_ids_eq:
  "main_selected_ids (main repos prs comments) = id_pr ` set (selected repos prs)"
  unfolding main_unfold Let_def by (simp only: main_locals.select_convs set_map)

lemma main_bot_assigned_eq:
  "main_bot_assigned (main repos prs comments) = bot_assigned repos prs"
  unfolding main_unfold Let_def by (simp only: main_locals.select_convs)

lemma main_excluded_eq:
  "main_excluded (main repos prs comments) =
     filter (\<lambda>p. id_pr p \<notin> main_user_commented_pr_ids (main repos prs comments))
       (bot_assigned repos prs)"
  unfolding main_unfold Let_def by (simp only: main_locals.select_convs)

lemma main_excluded_ids_eq:
  "main_excluded_ids (main repos prs comments) =
     excluded_ids repos prs (main_user_commented_pr_ids (main repos prs comments))"
  unfolding main_unfold Let_def by (simp only: main_locals.select_convs)

lemma main_kept_ids_eq:
  "main_kept_ids (main repos prs comments) =
     main_selected_ids (main repos prs comments) - main_excluded_ids (main repos prs comments)"
  unfolding main_unfold Let_def by (simp only: main_locals.select_convs)

lemma main_kept_eq:
  "main_kept (main repos prs comments) =
     kept repos prs (main_user_commented_pr_ids (main repos prs comments))"
  unfolding main_unfold Let_def by (simp only: main_locals.select_convs)

lemma human_commented_ids_exact:
  assumes "\<forall>c\<in>set comments. user_type c = ''User'' \<longrightarrow>
      (\<forall>v. pr_id c = Some v \<longrightarrow> \<bar>v\<bar> \<le> 2 ^ 53)"
    and "human_commented_ids comments = Inr hc"
  shows "hc = {i. \<exists>c\<in>set comments. user_type c = ''User'' \<and> pr_id c = Some i}"
  using human_commented_ids_Inr [OF assms(2)] cast_user_ids_exact [OF assms(1)] by simp

lemma main_user_commented_pr_ids_exact:
  assumes "\<forall>c\<in>set comments. user_type c = ''User'' \<longrightarrow>
      (\<forall>v. pr_id c = Some v \<longrightarrow> \<bar>v\<bar> \<le> 2 ^ 53)"
  shows "main_user_commented_pr_ids (main repos prs comments) =
     {i. \<exists>c\<in>set comments. user_type c = ''User'' \<and> pr_id c = Some i}"
  using cast_user_ids_exact [OF assms] by (simp only: main_user_commented_pr_ids_eq)

subsection \<open>The partition, where the cast is exact\<close>

text \<open>
  When the ids of the comments of users are at most \<open>2^53\<close> in magnitude, the column and
  the cast return them as they are, and the Selector of both scripts partitions as the
  specification says. In \<^verbatim>\<open>samples.py\<close>, whenever the cast succeeds with the set \<open>hc\<close>:
  \<open>hc\<close> is the set of ids with at least one comment of \<^verbatim>\<open>user_type\<close> "User"; the rows of
  \<^verbatim>\<open>kept\<close> are the rows of \<^verbatim>\<open>selected\<close> whose id is not excluded; the excluded ids are
  among the ids of \<^verbatim>\<open>bot_assigned\<close>, whose rows are among those of \<^verbatim>\<open>selected\<close>; an id is
  excluded exactly when it is bot-assigned and not in \<open>hc\<close>; and when the ids of the pull
  requests are unique, a selected row is excluded exactly when its user is in the bot
  list and its id is not in \<open>hc\<close>. The same holds of the locals of \<^verbatim>\<open>main\<close> in
  \<^verbatim>\<open>table1.py\<close>.
\<close>

lemma selector_partition_exact:
  assumes "\<forall>c\<in>set comments. user_type c = ''User'' \<longrightarrow>
      (\<forall>v. pr_id c = Some v \<longrightarrow> \<bar>v\<bar> \<le> 2 ^ 53)"
  shows
  "(\<forall>hc. human_commented_ids comments = Inr hc \<longrightarrow>
      hc = {i. \<exists>c\<in>set comments. user_type c = ''User'' \<and> pr_id c = Some i}
      \<and> map pull_request.truncate (kept repos prs hc) =
          filter (\<lambda>p. id_pr p \<notin> excluded_ids repos prs hc) (selected repos prs)
      \<and> id_pr ` set (kept repos prs hc) =
          id_pr ` set (selected repos prs) - excluded_ids repos prs hc
      \<and> excluded_ids repos prs hc \<subseteq> id_pr ` set (bot_assigned repos prs)
      \<and> set (bot_assigned repos prs) \<subseteq> set (selected repos prs)
      \<and> excluded_ids repos prs hc = id_pr ` set (bot_assigned repos prs) - hc
      \<and> (distinct (map id_pr prs) \<longrightarrow>
           (\<forall>p\<in>set (selected repos prs).
              id_pr p \<in> excluded_ids repos prs hc \<longleftrightarrow>
              user p \<in> set BOT_LIST \<and> id_pr p \<notin> hc)))
   \<and> (let m = main repos prs comments in
        main_user_commented_pr_ids m =
          {i. \<exists>c\<in>set comments. user_type c = ''User'' \<and> pr_id c = Some i}
      \<and> map pull_request.truncate (main_kept m) =
          filter (\<lambda>p. id_pr p \<notin> main_excluded_ids m) (main_selected m)
      \<and> main_kept_ids m = main_selected_ids m - main_excluded_ids m
      \<and> id_pr ` set (main_kept m) = main_kept_ids m
      \<and> main_selected_ids m = id_pr ` set (main_selected m)
      \<and> main_excluded_ids m = id_pr ` set (main_excluded m)
      \<and> set (main_excluded m) \<subseteq> set (main_bot_assigned m)
      \<and> set (main_bot_assigned m) \<subseteq> set (main_selected m)
      \<and> main_excluded_ids m = id_pr ` set (main_bot_assigned m) - main_user_commented_pr_ids m
      \<and> (distinct (map id_pr prs) \<longrightarrow>
           (\<forall>p\<in>set (main_selected m).
              id_pr p \<in> main_excluded_ids m \<longleftrightarrow>
              user p \<in> set BOT_LIST \<and> id_pr p \<notin> main_user_commented_pr_ids m)))"
proof -
  have samples: "hc = {i. \<exists>c\<in>set comments. user_type c = ''User'' \<and> pr_id c = Some i}
      \<and> map pull_request.truncate (kept repos prs hc) =
          filter (\<lambda>p. id_pr p \<notin> excluded_ids repos prs hc) (selected repos prs)
      \<and> id_pr ` set (kept repos prs hc) =
          id_pr ` set (selected repos prs) - excluded_ids repos prs hc
      \<and> excluded_ids repos prs hc \<subseteq> id_pr ` set (bot_assigned repos prs)
      \<and> set (bot_assigned repos prs) \<subseteq> set (selected repos prs)
      \<and> excluded_ids repos prs hc = id_pr ` set (bot_assigned repos prs) - hc
      \<and> (distinct (map id_pr prs) \<longrightarrow>
           (\<forall>p\<in>set (selected repos prs).
              id_pr p \<in> excluded_ids repos prs hc \<longleftrightarrow>
              user p \<in> set BOT_LIST \<and> id_pr p \<notin> hc))"
    if "human_commented_ids comments = Inr hc" for hc
    using human_commented_ids_exact [OF assms that] kept_truncate [of repos prs hc]
      kept_ids [of repos prs hc] bot_assigned_subset [of repos prs]
      excluded_ids_eq [of repos prs hc] excluded_iff [of prs _ repos hc]
    by (intro conjI impI ballI) simp_all
  define m where "m = main repos prs comments"
  define uc where "uc = main_user_commented_pr_ids m"
  have sel: "main_selected m = selected repos prs"
    and sel_ids: "main_selected_ids m = id_pr ` set (selected repos prs)"
    and bot: "main_bot_assigned m = bot_assigned repos prs"
    and exc: "main_excluded m = filter (\<lambda>p. id_pr p \<notin> uc) (bot_assigned repos prs)"
    and exc_ids: "main_excluded_ids m = excluded_ids repos prs uc"
    and k_ids: "main_kept_ids m = main_selected_ids m - main_excluded_ids m"
    and k: "main_kept m = kept repos prs uc"
    unfolding m_def uc_def
    by (rule main_selected_eq main_selected_ids_eq main_bot_assigned_eq main_excluded_eq
        main_excluded_ids_eq main_kept_ids_eq main_kept_eq)+
  have main: "main_user_commented_pr_ids m =
          {i. \<exists>c\<in>set comments. user_type c = ''User'' \<and> pr_id c = Some i}
      \<and> map pull_request.truncate (main_kept m) =
          filter (\<lambda>p. id_pr p \<notin> main_excluded_ids m) (main_selected m)
      \<and> main_kept_ids m = main_selected_ids m - main_excluded_ids m
      \<and> id_pr ` set (main_kept m) = main_kept_ids m
      \<and> main_selected_ids m = id_pr ` set (main_selected m)
      \<and> main_excluded_ids m = id_pr ` set (main_excluded m)
      \<and> set (main_excluded m) \<subseteq> set (main_bot_assigned m)
      \<and> set (main_bot_assigned m) \<subseteq> set (main_selected m)
      \<and> main_excluded_ids m = id_pr ` set (main_bot_assigned m) - main_user_commented_pr_ids m
      \<and> (distinct (map id_pr prs) \<longrightarrow>
           (\<forall>p\<in>set (main_selected m).
              id_pr p \<in> main_excluded_ids m \<longleftrightarrow>
              user p \<in> set BOT_LIST \<and> id_pr p \<notin> main_user_commented_pr_ids m))"
    unfolding sel sel_ids bot exc exc_ids k_ids k uc_def [symmetric]
    using main_user_commented_pr_ids_exact [OF assms, of repos prs, folded m_def uc_def]
      kept_truncate [of repos prs uc] kept_ids [of repos prs uc]
      bot_assigned_subset [of repos prs] excluded_ids_eq [of repos prs uc]
      excluded_iff [of prs _ repos uc]
    by (intro conjI impI ballI) (simp_all add: excluded_ids_def)
  from samples main show ?thesis
    unfolding m_def Let_def by blast
qed

subsection \<open>The partition, where the cast rounds\<close>

lemma float_cast_values:
  "float64_of_int 9007199254740993 = 9007199254740992
   \<and> float64_of_int 9007199254740995 = 9007199254740996
   \<and> int64_of_float (float64_of_int 9223372036854775807) = - 9223372036854775808"
  by code_simp

text \<open>
  Claim C1, the partition property of the Selector: kept is selected minus excluded,
  excluded is within bot-assigned, which is within selected, and a selected pull request
  is excluded exactly when it is bot-assigned and no comment of \<^verbatim>\<open>user_type\<close> "User" has
  its id. The code breaks the last part. In the tables below a comment of a user has the
  id \<open>2^53 + 1\<close> of the only pull request, which is bot-assigned, and another comment has
  no \<^verbatim>\<open>pr_id\<close>; the column is \<^verbatim>\<open>float64\<close> then, the id arrives as \<open>2^53\<close>, and both scripts
  exclude the pull request although a user commented on it.
\<close>

theorem selector_excludes_commented_bot_pr:
  "(\<exists>c\<in>set rounding_comments. user_type c = ''User'' \<and> pr_id c = Some 9007199254740993)
   \<and> map id_pr (selected scenario_repos rounding_prs) = [9007199254740993]
   \<and> map id_pr (bot_assigned scenario_repos rounding_prs) = [9007199254740993]
   \<and> human_commented_ids rounding_comments = Inr {9007199254740992}
   \<and> excluded_ids scenario_repos rounding_prs {9007199254740992} = {9007199254740993}
   \<and> kept scenario_repos rounding_prs {9007199254740992} = []
   \<and> main_user_commented_pr_ids (main scenario_repos rounding_prs rounding_comments) =
       {9007199254740992}
   \<and> main_excluded_ids (main scenario_repos rounding_prs rounding_comments) =
       {9007199254740993}
   \<and> main_kept (main scenario_repos rounding_prs rounding_comments) = []"
  by code_simp

section \<open>The Sampler: one call\<close>

subsection \<open>The stratified split\<close>

lemma train_test_split_refused:
  "split_refused (length df) test_size y \<Longrightarrow>
     train_test_split draw amb df test_size y rs = Inl ValueError"
  by (simp add: train_test_split_def)

lemma train_test_split_drawn:
  "\<not> split_refused (length df) test_size y \<Longrightarrow>
     train_test_split draw amb df test_size y rs =
       Inr (map ((!) df) (fst (draw (check_random_state amb rs) y (length df - nat test_size) (nat test_size))),
            map ((!) df) (snd (draw (check_random_state amb rs) y (length df - nat test_size) (nat test_size))))"
  by (simp add: train_test_split_def Let_def split_def)

lemma train_test_split_Inl_iff:
  "train_test_split draw amb df test_size y rs = Inl e \<longleftrightarrow>
     e = ValueError \<and> split_refused (length df) test_size y"
  by (cases "split_refused (length df) test_size y")
     (auto simp: train_test_split_refused train_test_split_drawn)

lemma not_refused_sizes:
  assumes "\<not> split_refused n_samples test_size y"
  shows "0 < test_size" "test_size < int n_samples" "length y = n_samples"
  using assms by (auto simp: split_refused_def Let_def)

lemma mset_nth_upt: "image_mset ((!) df) (mset [0..<length df]) = mset df"
proof -
  have "image_mset ((!) df) (mset [0..<length df]) = mset (map ((!) df) [0..<length df])"
    by simp
  then show ?thesis by (simp only: map_nth)
qed

lemma valid_drawD:
  assumes "valid_draw draw" "0 < n_train" "0 < n_test" "n_train + n_test = length y"
    "draw g y n_train n_test = (tr, te)"
  shows "mset tr + mset te = mset [0..<length y]" "length tr = n_train"
proof -
  from assms(1-4) have "case draw g y n_train n_test of
      (train, test) \<Rightarrow> mset train + mset test = mset [0..<length y] \<and> length train = n_train"
    unfolding valid_draw_def by (elim allE [where x = g] allE [where x = y] allE [where x = n_train] allE [where x = n_test]) simp
  then show "mset tr + mset te = mset [0..<length y]" "length tr = n_train"
    by (simp_all only: assms(5) prod.case)
qed

lemma mset_map_nth_split:
  assumes "mset tr + mset te = mset [0..<length df]"
  shows "mset (map ((!) df) tr) + mset (map ((!) df) te) = mset df"
proof -
  have "mset (map ((!) df) tr) + mset (map ((!) df) te) = image_mset ((!) df) (mset tr + mset te)"
    by (simp only: mset_map image_mset_union)
  also have "\<dots> = mset df" by (simp only: assms mset_nth_upt)
  finally show ?thesis .
qed

lemma train_test_split_partition:
  assumes valid: "valid_draw draw"
    and res: "train_test_split draw amb df test_size y rs = Inr (a, b)"
  shows "mset a + mset b = mset df" and "int (length a) = int (length df) - test_size"
proof -
  have ok: "\<not> split_refused (length df) test_size y"
    using res train_test_split_refused [of df test_size y draw amb rs] by auto
  note sz = not_refused_sizes [OF ok]
  define n_test where "n_test = nat test_size"
  define n_train where "n_train = length df - n_test"
  define g where "g = check_random_state amb rs"
  obtain tr te where d: "draw g y n_train n_test = (tr, te)" by (cases "draw g y n_train n_test")
  have pos: "0 < n_train" "0 < n_test" "n_train + n_test = length y"
    using sz by (auto simp: n_train_def n_test_def)
  note v = valid_drawD [OF valid pos d]
  from res train_test_split_drawn [OF ok, of draw amb rs] d
  have a: "a = map ((!) df) tr" and b: "b = map ((!) df) te"
    by (simp_all add: g_def n_train_def n_test_def)
  show "mset a + mset b = mset df"
    unfolding a b using v(1) sz(3) mset_map_nth_split [of tr te df] by simp
  show "int (length a) = int (length df) - test_size"
    using v(2) sz by (simp add: a n_train_def n_test_def)
qed

lemma mset_upt_split: "mset [0..<a] + mset [a..<a + b] = mset [0..<a + b]" for a b :: nat
proof -
  have "[0..<a + b] = [0..<a] @ [a..<a + b]"
    using upt_add_eq_append [of 0 a b] by simp
  then show ?thesis by (simp only: mset_append)
qed

lemma valid_draw_first_rows: "valid_draw first_rows"
  unfolding valid_draw_def first_rows_def
proof (intro allI impI)
  fix g :: generator and y :: "string list" and n_train n_test :: nat
  assume "0 < n_train \<and> 0 < n_test \<and> n_train + n_test = length y"
  then have len: "length y = n_train + n_test" by simp
  show "case ([0..<n_train], [n_train..<length y]) of
          (train, test) \<Rightarrow>
            mset train + mset test = mset [0..<length y] \<and> length train = n_train"
    unfolding len prod.case using mset_upt_split [of n_train n_test]
    by (simp only: length_upt) simp
qed

lemma length_class_counts: "length (class_counts y) = card (set y)"
  by (simp add: class_counts_def length_remdups_card_conv)

lemma set_class_counts: "set (class_counts y) = count_list y ` set y"
  by (simp add: class_counts_def)

lemma Min_class_counts:
  assumes "y \<noteq> []"
  shows "Min (set (class_counts y)) < 2 \<longleftrightarrow> (\<exists>a\<in>set y. count_list y a < 2)"
proof -
  have "finite (count_list y ` set y)" "count_list y ` set y \<noteq> {}"
    using assms by simp_all
  then show ?thesis
    unfolding set_class_counts by (simp add: Min_less_iff)
qed

lemma split_refused_iff:
  assumes "0 < ts" "ts < int n" "length y = n"
  shows "split_refused n ts y \<longleftrightarrow>
    (\<exists>a\<in>set y. count_list y a < 2) \<or> int n - ts < int (card (set y)) \<or> ts < int (card (set y))"
proof -
  have "y \<noteq> []" using assms by auto
  from Min_class_counts [OF this] assms show ?thesis
    by (simp add: split_refused_def Let_def length_class_counts)
qed

subsection \<open>\<^verbatim>\<open>stratified_n_sample\<close>, branch by branch\<close>

lemma stratified_n_sample_zero:
  "stratified_n_sample draw amb df 0 col = Inr ([], df)"
  by (simp add: stratified_n_sample_def)

lemma stratified_n_sample_all:
  "int (length df) \<le> n \<Longrightarrow> stratified_n_sample draw amb df n col = Inr (df, [])"
  by (auto simp: stratified_n_sample_def Let_def min_def)

lemma stratified_n_sample_split:
  "n \<noteq> 0 \<Longrightarrow> n < int (length df) \<Longrightarrow>
     stratified_n_sample draw amb df n col =
       train_test_split draw amb df (int (length df) - n) (map col df) (Some RANDOM_STATE)"
  by (simp add: stratified_n_sample_def Let_def min_def)

lemma stratified_n_sample_negative:
  "n < 0 \<Longrightarrow> stratified_n_sample draw amb df n col = Inl ValueError"
  by (simp add: stratified_n_sample_split train_test_split_refused split_refused_def Let_def)

lemma stratified_n_sample_Inr:
  assumes valid: "valid_draw draw"
    and res: "stratified_n_sample draw amb df n col = Inr (s, r)"
  shows "mset s + mset r = mset df" and "int (length s) = min n (int (length df))"
proof -
  consider "n = 0" | "int (length df) \<le> n" | "n \<noteq> 0" "n < int (length df)" by linarith
  then have "mset s + mset r = mset df \<and> int (length s) = min n (int (length df))"
  proof cases
    case 1
    with res show ?thesis by (simp add: stratified_n_sample_zero)
  next
    case 2
    with res show ?thesis by (simp add: stratified_n_sample_all)
  next
    case 3
    with res have "train_test_split draw amb df (int (length df) - n) (map col df)
        (Some RANDOM_STATE) = Inr (s, r)"
      by (simp add: stratified_n_sample_split)
    from train_test_split_partition [OF valid this] 3 show ?thesis by simp
  qed
  then show "mset s + mset r = mset df" and "int (length s) = min n (int (length df))"
    by simp_all
qed

lemma stratified_n_sample_Inl:
  assumes "stratified_n_sample draw amb df n col = Inl e"
  shows "e = ValueError" and "n < 0 \<or> 0 < n \<and> n < int (length df)"
proof -
  have n: "n \<noteq> 0" "n < int (length df)"
    using assms stratified_n_sample_zero [of draw amb df col]
      stratified_n_sample_all [of df n draw amb col]
    by (auto simp: not_le [symmetric])
  then show "n < 0 \<or> 0 < n \<and> n < int (length df)" by linarith
  from assms n show "e = ValueError"
    by (simp add: stratified_n_sample_split train_test_split_Inl_iff)
qed

lemma mset_split_disjoint:
  assumes "mset s + mset r = mset df" "distinct df"
  shows "set s \<inter> set r = {}"
proof -
  have "mset (s @ r) = mset df" using assms(1) by simp
  then have "distinct (s @ r)" using assms(2) by (metis mset_eq_imp_distinct_iff)
  then show ?thesis by simp
qed

text \<open>
  Claim C2, as the code has it. \<^verbatim>\<open>stratified_n_sample\<close> does not return for every pool,
  size and column: the call of \<^verbatim>\<open>train_test_split\<close> can raise. Whatever the draw of the
  library (provided it is a valid one), the call either raises \<^verbatim>\<open>ValueError\<close>, which
  happens only for a size strictly between 0 and the size of the pool or for a negative
  size, or it returns a sample and a remainder that together hold exactly the rows of the
  pool, each as often as the pool has it, the sample having \<open>min n |pool|\<close> rows; for a pool
  without repeated rows the two have no row in common.
\<close>

theorem stratified_n_sample_outcome:
  assumes "valid_draw draw"
  shows "case stratified_n_sample draw amb pool n col of
           Inl e \<Rightarrow> e = ValueError \<and> (n < 0 \<or> 0 < n \<and> n < int (length pool))
         | Inr (sample, remainder) \<Rightarrow>
             mset sample + mset remainder = mset pool
             \<and> int (length sample) = min n (int (length pool))
             \<and> (distinct pool \<longrightarrow> set sample \<inter> set remainder = {})"
proof (cases "stratified_n_sample draw amb pool n col")
  case (Inl e)
  from stratified_n_sample_Inl [OF this] Inl show ?thesis by simp
next
  case (Inr sr)
  obtain s r where sr: "sr = (s, r)" by (cases sr)
  from stratified_n_sample_Inr [OF assms Inr [unfolded sr]]
  have p: "mset s + mset r = mset pool" and l: "int (length s) = min n (int (length pool))" .
  from mset_split_disjoint [OF p] have "distinct pool \<longrightarrow> set s \<inter> set r = {}" by simp
  with p l show ?thesis by (simp add: Inr sr)
qed

theorem stratified_n_sample_outcome_witness:
  "valid_draw first_rows
   \<and> stratified_n_sample first_rows (Global_Generator 0) two_strata_pool 2 agent =
       Inr ([pool_row 1 ''Devin'', pool_row 2 ''Cursor''],
            [pool_row 3 ''Devin'', pool_row 4 ''Cursor''])
   \<and> mset [pool_row 1 ''Devin'', pool_row 2 ''Cursor'']
       + mset [pool_row 3 ''Devin'', pool_row 4 ''Cursor''] = mset two_strata_pool
   \<and> int (length [pool_row 1 ''Devin'', pool_row 2 ''Cursor'']) =
       min 2 (int (length two_strata_pool))
   \<and> distinct two_strata_pool
   \<and> set [pool_row 1 ''Devin'', pool_row 2 ''Cursor'']
       \<inter> set [pool_row 3 ''Devin'', pool_row 4 ''Cursor''] = {}"
proof -
  have r: "stratified_n_sample first_rows (Global_Generator 0) two_strata_pool 2 agent =
       Inr ([pool_row 1 ''Devin'', pool_row 2 ''Cursor''],
            [pool_row 3 ''Devin'', pool_row 4 ''Cursor''])"
    by code_simp
  have d: "distinct two_strata_pool" by code_simp
  have o: "case stratified_n_sample first_rows (Global_Generator 0) two_strata_pool 2 agent of
           Inl e \<Rightarrow> e = ValueError \<and> ((2::int) < 0 \<or> 0 < (2::int) \<and> 2 < int (length two_strata_pool))
         | Inr (sample, remainder) \<Rightarrow>
             mset sample + mset remainder = mset two_strata_pool
             \<and> int (length sample) = min 2 (int (length two_strata_pool))
             \<and> (distinct two_strata_pool \<longrightarrow> set sample \<inter> set remainder = {})"
    by (rule stratified_n_sample_outcome [OF valid_draw_first_rows])
  note c = o [unfolded r sum.case prod.case]
  note c1 = c [THEN conjunct1]
  note c2 = c [THEN conjunct2, THEN conjunct1]
  note c3 = c [THEN conjunct2, THEN conjunct2, rule_format, OF d]
  from valid_draw_first_rows r c1 c2 d c3 show ?thesis by (intro conjI)
qed

text \<open>
  The claim as stated fails: with two agents in the pool and one row asked for, the split
  is refused (fewer train rows than classes) and nothing is returned. No draw is made
  before the refusal, so the outcome is the same for every draw.
\<close>

theorem stratified_n_sample_outcome_counterexample:
  "stratified_n_sample first_rows (Global_Generator 0) two_strata_pool 1 agent = Inl ValueError"
  by code_simp

text \<open>
  Claim C3, as the code has it. For a size strictly between 0 and the size of the pool,
  \<^verbatim>\<open>stratified_n_sample\<close> is the call of \<^verbatim>\<open>train_test_split\<close> and nothing else: there is no
  fallback. It returns exactly when every stratum has at least two rows and the number
  of strata is at most \<open>n\<close> and at most \<open>|pool| - n\<close>; otherwise it raises \<^verbatim>\<open>ValueError\<close>.
\<close>

theorem stratified_n_sample_no_fallback:
  assumes "0 < n" "n < int (length pool)"
  shows "stratified_n_sample draw amb pool n col =
           train_test_split draw amb pool (int (length pool) - n) (map col pool)
             (Some RANDOM_STATE)
    \<and> ((\<exists>s r. stratified_n_sample draw amb pool n col = Inr (s, r)) \<longleftrightarrow>
          (\<forall>a\<in>col ` set pool. 2 \<le> count_list (map col pool) a)
          \<and> int (card (col ` set pool)) \<le> n
          \<and> int (card (col ` set pool)) \<le> int (length pool) - n)
    \<and> (stratified_n_sample draw amb pool n col = Inl ValueError \<longleftrightarrow>
          (\<exists>a\<in>col ` set pool. count_list (map col pool) a < 2)
          \<or> n < int (card (col ` set pool))
          \<or> int (length pool) - n < int (card (col ` set pool)))"
proof -
  let ?ts = "int (length pool) - n"
  let ?y = "map col pool"
  have eq: "stratified_n_sample draw amb pool n col =
      train_test_split draw amb pool ?ts ?y (Some RANDOM_STATE)"
    using assms by (simp add: stratified_n_sample_split)
  have ref: "split_refused (length pool) ?ts ?y \<longleftrightarrow>
      (\<exists>a\<in>col ` set pool. count_list ?y a < 2) \<or> n < int (card (col ` set pool))
      \<or> ?ts < int (card (col ` set pool))"
    using split_refused_iff [of ?ts "length pool" ?y] assms by simp
  have inl: "train_test_split draw amb pool ?ts ?y (Some RANDOM_STATE) = Inl ValueError \<longleftrightarrow>
      split_refused (length pool) ?ts ?y"
    by (simp add: train_test_split_Inl_iff)
  have inr: "(\<exists>s r. train_test_split draw amb pool ?ts ?y (Some RANDOM_STATE) = Inr (s, r)) \<longleftrightarrow>
      \<not> split_refused (length pool) ?ts ?y"
    by (cases "split_refused (length pool) ?ts ?y")
       (simp_all add: train_test_split_refused train_test_split_drawn)
  show ?thesis
    unfolding eq inl inr ref by (auto simp: not_less not_le)
qed

theorem stratified_n_sample_no_fallback_witness:
  "(0::int) < 2 \<and> 2 < int (length two_strata_pool)
   \<and> stratified_n_sample first_rows (Global_Generator 0) two_strata_pool 2 agent =
       train_test_split first_rows (Global_Generator 0) two_strata_pool
         (int (length two_strata_pool) - 2) (map agent two_strata_pool) (Some RANDOM_STATE)
   \<and> (\<exists>s r. stratified_n_sample first_rows (Global_Generator 0) two_strata_pool 2 agent =
         Inr (s, r))
   \<and> (0::int) < 2 \<and> 2 < int (length lone_stratum_pool)
   \<and> count_list (map agent lone_stratum_pool) ''Cursor'' = 1
   \<and> stratified_n_sample first_rows (Global_Generator 0) lone_stratum_pool 2 agent =
       Inl ValueError"
proof -
  have l2: "2 < int (length two_strata_pool)" by code_simp
  have ok: "(\<forall>a\<in>agent ` set two_strata_pool. 2 \<le> count_list (map agent two_strata_pool) a)
      \<and> int (card (agent ` set two_strata_pool)) \<le> 2
      \<and> int (card (agent ` set two_strata_pool)) \<le> int (length two_strata_pool) - 2"
    by code_simp
  have z: "(0::int) < 2" by simp
  note t = stratified_n_sample_no_fallback [where draw = first_rows
      and amb = "Global_Generator 0" and col = agent, OF z l2]
  have a: "stratified_n_sample first_rows (Global_Generator 0) two_strata_pool 2 agent =
       train_test_split first_rows (Global_Generator 0) two_strata_pool
         (int (length two_strata_pool) - 2) (map agent two_strata_pool) (Some RANDOM_STATE)"
    using t by (rule conjunct1)
  have b: "\<exists>s r. stratified_n_sample first_rows (Global_Generator 0) two_strata_pool 2 agent =
         Inr (s, r)"
    using t [THEN conjunct2, THEN conjunct1, THEN iffD2, OF ok] .
  have l3: "2 < int (length lone_stratum_pool)" by code_simp
  have c: "count_list (map agent lone_stratum_pool) ''Cursor'' = 1" by code_simp
  have m: "''Cursor'' \<in> agent ` set lone_stratum_pool" by code_simp
  note u = stratified_n_sample_no_fallback [where draw = first_rows
      and amb = "Global_Generator 0" and col = agent, OF z l3]
  have "\<exists>a\<in>agent ` set lone_stratum_pool. count_list (map agent lone_stratum_pool) a < 2"
    using c m by (intro bexI [of _ "''Cursor''"]) simp_all
  then have e: "stratified_n_sample first_rows (Global_Generator 0) lone_stratum_pool 2 agent =
       Inl ValueError"
    by (rule u [THEN conjunct2, THEN conjunct2, THEN iffD2, OF disjI1])
  from z l2 a b l3 c e show ?thesis by (intro conjI)
qed

text \<open>
  The claim as stated fails: a pool in which one agent has a single row makes the call
  raise, for one row asked for as for two.
\<close>

theorem stratified_n_sample_no_fallback_counterexample:
  "stratified_n_sample first_rows (Global_Generator 0) lone_stratum_pool 1 agent = Inl ValueError
   \<and> stratified_n_sample first_rows (Global_Generator 0) lone_stratum_pool 2 agent =
       Inl ValueError"
  by code_simp

text \<open>
  Claim C7, the boundaries of the sampler: size 0 gives the empty sample and the whole
  pool as remainder; a size of at least the size of the pool gives the whole pool and an
  empty remainder; and an empty pool with a positive size gives the empty pool as the
  sample, without an error. None of the three reaches \<^verbatim>\<open>train_test_split\<close>.
\<close>

theorem stratified_n_sample_boundary:
  "stratified_n_sample draw amb pool 0 col = Inr ([], pool)
   \<and> (int (length pool) \<le> n \<longrightarrow> stratified_n_sample draw amb pool n col = Inr (pool, []))
   \<and> (0 < n \<longrightarrow> stratified_n_sample draw amb [] n col = Inr ([], []))"
  by (simp add: stratified_n_sample_zero stratified_n_sample_all)

theorem stratified_n_sample_boundary_witness:
  "stratified_n_sample first_rows (Global_Generator 0) two_strata_pool 0 agent =
     Inr ([], two_strata_pool)
   \<and> int (length two_strata_pool) \<le> 4
   \<and> stratified_n_sample first_rows (Global_Generator 0) two_strata_pool 4 agent =
       Inr (two_strata_pool, [])
   \<and> int (length two_strata_pool) \<le> 30
   \<and> stratified_n_sample first_rows (Global_Generator 0) two_strata_pool 30 agent =
       Inr (two_strata_pool, [])
   \<and> stratified_n_sample first_rows (Global_Generator 0) ([] :: kept_pr list) 30 agent =
       Inr ([], [])"
proof -
  have l: "int (length two_strata_pool) \<le> 4" by code_simp
  note t = stratified_n_sample_boundary [where draw = first_rows
      and amb = "Global_Generator 0" and pool = two_strata_pool and col = agent]
  note e = stratified_n_sample_boundary [where draw = first_rows
      and amb = "Global_Generator 0" and pool = "[] :: kept_pr list" and col = agent and n = 30]
  from l t [where n = 4] t [where n = 30] e show ?thesis by simp
qed

section \<open>The Aggregator: rows, order and sums\<close>

subsection \<open>Grouping by agent\<close>

lemma sorted_AGENTS: "sorted AGENTS"
  by code_simp

lemma distinct_AGENTS: "distinct AGENTS"
  by code_simp

lemma roster_order:
  "filter (\<lambda>a. a \<in> set AGENTS) (sort (remdups ks)) = filter (\<lambda>a. a \<in> set ks) AGENTS"
proof (rule sorted_distinct_set_unique)
  show "sorted (filter (\<lambda>a. a \<in> set AGENTS) (sort (remdups ks)))"
    using sorted_filter [of "\<lambda>x. x" "sort (remdups ks)"] by simp
  show "distinct (filter (\<lambda>a. a \<in> set AGENTS) (sort (remdups ks)))"
    by simp
  show "sorted (filter (\<lambda>a. a \<in> set ks) AGENTS)"
    using sorted_filter [of "\<lambda>x. x" AGENTS] sorted_AGENTS by simp
  show "distinct (filter (\<lambda>a. a \<in> set ks) AGENTS)"
    using distinct_AGENTS by simp
  show "set (filter (\<lambda>a. a \<in> set AGENTS) (sort (remdups ks))) =
      set (filter (\<lambda>a. a \<in> set ks) AGENTS)"
    by auto
qed

lemma row_agent_with_rejected: "row_agent (with_rejected x) = fst x"
  by (cases x) simp

lemma total_with_rejected: "total (with_rejected x) = fst (snd x)"
  by (cases x) simp

lemma merged_with_rejected: "merged (with_rejected x) = snd (snd x)"
  by (cases x) simp

lemma rejected_with_rejected:
  "rejected (with_rejected x) = total (with_rejected x) - merged (with_rejected x)"
  by (cases x) simp

lemma sum_bools: "(\<Sum>p\<leftarrow>xs. if P p then 1 else 0) = int (length (filter P xs))"
  by (induction xs) simp_all

text \<open>The rows of Table 1 in \<^verbatim>\<open>samples.py\<close>, one per key, as a function of the key.\<close>

text \<open>The rows of Table 1 in \<^verbatim>\<open>samples.py\<close>, one per roster agent that occurs, as a function of the agent.\<close>

lemma table1_rows:
  "table1 repos prs hc =
     map (\<lambda>a. \<lparr>row_agent = a,
               total = int (length (filter (\<lambda>p. agent p = a) (kept repos prs hc))),
               merged = int (length (filter (\<lambda>p. agent p = a \<and> is_merged p) (kept repos prs hc))),
               rejected = int (length (filter (\<lambda>p. agent p = a) (kept repos prs hc)))
                 - int (length (filter (\<lambda>p. agent p = a \<and> is_merged p) (kept repos prs hc)))\<rparr>)
       (filter (\<lambda>a. a \<in> agent ` set (kept repos prs hc)) AGENTS)"
proof -
  let ?k = "kept repos prs hc"
  let ?row = "\<lambda>a. let g = filter (\<lambda>p. agent p = a) ?k
              in (a, int (length g), (\<Sum>p\<leftarrow>g. if is_merged p then 1 else 0))"
  have "table1 repos prs hc =
      filter (\<lambda>r. row_agent r \<in> set AGENTS)
        (map (\<lambda>a. with_rejected (?row a)) (sort (remdups (map agent ?k))))"
    by (simp add: table1_def groupby_agent_agg_def comp_def)
  also have "\<dots> = map (\<lambda>a. with_rejected (?row a))
      (filter (\<lambda>a. a \<in> set AGENTS) (sort (remdups (map agent ?k))))"
    by (simp add: filter_map comp_def row_agent_with_rejected Let_def)
  also have "filter (\<lambda>a. a \<in> set AGENTS) (sort (remdups (map agent ?k))) =
      filter (\<lambda>a. a \<in> agent ` set ?k) AGENTS"
    using roster_order [of "map agent ?k"] by simp
  finally show ?thesis
    by (simp add: Let_def sum_bools conj_commute)
qed

lemma table1_agents:
  "map row_agent (table1 repos prs hc) =
     filter (\<lambda>a. a \<in> agent ` set (kept repos prs hc)) AGENTS"
  by (simp add: table1_rows comp_def)

subsection \<open>Counting rows group by group\<close>

lemma length_filter_disj:
  "(\<And>x. x \<in> set xs \<Longrightarrow> \<not> (P x \<and> Q x)) \<Longrightarrow>
     length (filter (\<lambda>x. P x \<or> Q x) xs) = length (filter P xs) + length (filter Q xs)"
  by (induction xs) auto

lemma sum_group_sizes:
  "distinct ks \<Longrightarrow>
     (\<Sum>a\<leftarrow>ks. int (length (filter (\<lambda>p. g p = a \<and> Q p) k))) =
       int (length (filter (\<lambda>p. g p \<in> set ks \<and> Q p) k))"
proof (induction ks)
  case Nil
  then show ?case by simp
next
  case (Cons a ks)
  have "length (filter (\<lambda>p. g p \<in> set (a # ks) \<and> Q p) k) =
      length (filter (\<lambda>p. (g p = a \<and> Q p) \<or> (g p \<in> set ks \<and> Q p)) k)"
    by (rule arg_cong [where f = length], rule filter_cong) auto
  also have "\<dots> = length (filter (\<lambda>p. g p = a \<and> Q p) k)
      + length (filter (\<lambda>p. g p \<in> set ks \<and> Q p) k)"
    using Cons.prems by (intro length_filter_disj) auto
  finally show ?case using Cons by simp
qed

lemma roster_groups:
  "filter (\<lambda>p. agent p \<in> set (filter (\<lambda>a. a \<in> agent ` set k) AGENTS) \<and> Q p) k =
     filter (\<lambda>p. agent p \<in> set AGENTS \<and> Q p) k"
  by (rule filter_cong) auto

lemma sum_total_table1:
  "sum_list (map total (table1 repos prs hc)) =
     int (length (filter (\<lambda>p. agent p \<in> set AGENTS) (kept repos prs hc)))"
proof -
  have d: "distinct (filter (\<lambda>a. a \<in> agent ` set (kept repos prs hc)) AGENTS)"
    using distinct_AGENTS by simp
  show ?thesis
    using sum_group_sizes [OF d, of agent "\<lambda>_. True" "kept repos prs hc"]
      roster_groups [of "kept repos prs hc" "\<lambda>_. True"]
    by (simp add: table1_rows comp_def)
qed

lemma sum_merged_table1:
  "sum_list (map merged (table1 repos prs hc)) =
     int (length (filter (\<lambda>p. agent p \<in> set AGENTS \<and> is_merged p) (kept repos prs hc)))"
proof -
  have d: "distinct (filter (\<lambda>a. a \<in> agent ` set (kept repos prs hc)) AGENTS)"
    using distinct_AGENTS by simp
  show ?thesis
    using sum_group_sizes [OF d, of agent is_merged "kept repos prs hc"]
      roster_groups [of "kept repos prs hc" is_merged]
    by (simp add: table1_rows comp_def)
qed

lemma rejected_table1:
  "r \<in> set (table1 repos prs hc) \<Longrightarrow> rejected r = total r - merged r"
  by (auto simp: table1_rows)

lemma sum_list_diff: "(\<Sum>x\<leftarrow>xs. f x - g x) = sum_list (map f xs) - sum_list (map (g :: 'a \<Rightarrow> int) xs)"
  by (induction xs) simp_all

lemma sum_rejected_table1:
  "sum_list (map rejected (table1 repos prs hc)) =
     int (length (filter (\<lambda>p. agent p \<in> set AGENTS \<and> \<not> is_merged p) (kept repos prs hc)))"
proof -
  have "map rejected (table1 repos prs hc) = map (\<lambda>r. total r - merged r) (table1 repos prs hc)"
    by (rule map_cong) (simp_all add: rejected_table1)
  then have "sum_list (map rejected (table1 repos prs hc)) =
      sum_list (map total (table1 repos prs hc)) - sum_list (map merged (table1 repos prs hc))"
    by (simp only: sum_list_diff)
  moreover have "length (filter (\<lambda>p. agent p \<in> set AGENTS) (kept repos prs hc)) =
      length (filter (\<lambda>p. agent p \<in> set AGENTS \<and> is_merged p) (kept repos prs hc))
      + length (filter (\<lambda>p. agent p \<in> set AGENTS \<and> \<not> is_merged p) (kept repos prs hc))"
    using length_filter_disj [of "kept repos prs hc"
        "\<lambda>p. agent p \<in> set AGENTS \<and> is_merged p" "\<lambda>p. agent p \<in> set AGENTS \<and> \<not> is_merged p"]
    by (simp add: conj_disj_distribL [symmetric])
  ultimately show ?thesis
    by (simp add: sum_total_table1 sum_merged_table1)
qed

subsection \<open>The order of the rows in \<^verbatim>\<open>table1.py\<close>\<close>

text \<open>
  The roster is in ascending order of the names, so the frame that \<^verbatim>\<open>main\<close> sorts by the
  position in the roster is sorted already: both scripts build the same table.
\<close>

lemma sorted_order_AGENTS:
  "sorted (map (\<lambda>a. case fold (\<lambda>(i, a) m. m(a \<mapsto> i)) (enumerate 0 AGENTS) Map.empty a of
                       Some i \<Rightarrow> i | None \<Rightarrow> length AGENTS) AGENTS)"
  by code_simp

lemma main_table1_eq:
  "main_table1 (main repos prs comments) =
     table1 repos prs (main_user_commented_pr_ids (main repos prs comments))"
proof -
  let ?uc = "set (remdups (map int64_of_float (dropna (map pr_id
      (filter (\<lambda>c. user_type c = ''User'') (read_pr_comments comments))))))"
  let ?key = "\<lambda>a. case fold (\<lambda>(i, a) m. m(a \<mapsto> i)) (enumerate 0 AGENTS) Map.empty a of
                       Some i \<Rightarrow> i | None \<Rightarrow> length AGENTS"
  have e: "map (\<lambda>r. ?key (row_agent r)) (table1 repos prs ?uc) =
      map ?key (filter (\<lambda>a. a \<in> agent ` set (kept repos prs ?uc)) AGENTS)"
    using table1_agents [of repos prs ?uc, symmetric] by (simp only: map_map comp_def)
  have s: "sorted (map (\<lambda>r. ?key (row_agent r)) (table1 repos prs ?uc))"
    unfolding e by (rule sorted_filter) (rule sorted_order_AGENTS)
  have "sort_key (\<lambda>r. ?key (row_agent r)) (table1 repos prs ?uc) = table1 repos prs ?uc"
    by (rule sort_key_id_if_sorted) (rule s)
  then show ?thesis
    unfolding main_unfold Let_def by (simp only: main_locals.select_convs)
qed

lemma main_totals:
  "total_total (main repos prs comments) = sum_list (map total (main_table1 (main repos prs comments)))"
  "total_merged (main repos prs comments) = sum_list (map merged (main_table1 (main repos prs comments)))"
  "total_rejected (main repos prs comments) = sum_list (map rejected (main_table1 (main repos prs comments)))"
  unfolding main_unfold Let_def by (simp_all only: main_locals.select_convs)

text \<open>
  Claim C4, as the code has it. Table 1 has one row for each agent of the roster that has
  at least one kept pull request, no row for an agent of the roster that has none, no row
  for any other agent, and its rows are in roster order (which, for this roster, is also
  the ascending order of the names that \<^verbatim>\<open>groupby\<close> produces). This holds of the table of
  \<^verbatim>\<open>samples.py\<close> and of the table of \<^verbatim>\<open>table1.py\<close>.
\<close>

theorem table1_rows_in_roster_order:
  "map row_agent (table1 repos prs hc) =
     filter (\<lambda>a. a \<in> agent ` set (kept repos prs hc)) AGENTS
   \<and> map row_agent (main_table1 (main repos prs comments)) =
     filter (\<lambda>a. a \<in> agent ` set (main_kept (main repos prs comments))) AGENTS"
  by (simp only: main_table1_eq main_kept_eq table1_agents)

theorem table1_rows_in_roster_order_witness:
  "map row_agent (table1 scenario_repos scenario_prs {21}) = [''Copilot'', ''Devin'']
   \<and> map row_agent (main_table1 (main scenario_repos scenario_prs scenario_comments)) =
       [''Copilot'', ''Devin'']"
proof -
  have k: "filter (\<lambda>a. a \<in> agent ` set (kept scenario_repos scenario_prs {21})) AGENTS =
      [''Copilot'', ''Devin'']"
    by code_simp
  have m: "filter (\<lambda>a. a \<in> agent ` set (main_kept
      (main scenario_repos scenario_prs scenario_comments))) AGENTS = [''Copilot'', ''Devin'']"
    by code_simp
  from table1_rows_in_roster_order [of scenario_repos scenario_prs "{21}" scenario_comments]
  show ?thesis by (simp only: k m)
qed

text \<open>
  The claim as stated fails: in the concrete tables only Copilot and Devin have a kept
  pull request, and the table of either script has these two rows, not one row for each
  of the five agents of the roster.
\<close>

theorem table1_rows_in_roster_order_counterexample:
  "map row_agent (table1 scenario_repos scenario_prs {21}) = [''Copilot'', ''Devin'']
   \<and> map row_agent (main_table1 (main scenario_repos scenario_prs scenario_comments)) =
       [''Copilot'', ''Devin'']
   \<and> ''Cursor'' \<in> set AGENTS
   \<and> ''Cursor'' \<notin> row_agent ` set (table1 scenario_repos scenario_prs {21})
   \<and> ''Cursor'' \<notin> row_agent `
         set (main_table1 (main scenario_repos scenario_prs scenario_comments))"
  by code_simp

text \<open>
  Claim C5, the aggregation: in every row of Table 1, \<^verbatim>\<open>rejected\<close> is \<^verbatim>\<open>total\<close> minus
  \<^verbatim>\<open>merged\<close>, and the \<^verbatim>\<open>total\<close> column sums to the number of kept pull requests whose
  agent is in the roster; for the table of \<^verbatim>\<open>samples.py\<close> and for the table and the
  printed total of \<^verbatim>\<open>table1.py\<close>.
\<close>

theorem table1_aggregation:
  "(\<forall>r\<in>set (table1 repos prs hc). rejected r = total r - merged r)
   \<and> sum_list (map total (table1 repos prs hc)) =
       int (length (filter (\<lambda>p. agent p \<in> set AGENTS) (kept repos prs hc)))
   \<and> (let m = main repos prs comments in
        (\<forall>r\<in>set (main_table1 m). rejected r = total r - merged r)
        \<and> sum_list (map total (main_table1 m)) =
            int (length (filter (\<lambda>p. agent p \<in> set AGENTS) (main_kept m)))
        \<and> total_total m = int (length (filter (\<lambda>p. agent p \<in> set AGENTS) (main_kept m))))"
  unfolding Let_def main_totals main_table1_eq main_kept_eq
  by (intro conjI ballI rejected_table1 sum_total_table1)

theorem table1_aggregation_witness:
  "(rejected \<lparr>row_agent = ''Devin'', total = 1, merged = 1, rejected = 0\<rparr> =
      total \<lparr>row_agent = ''Devin'', total = 1, merged = 1, rejected = 0\<rparr>
      - merged \<lparr>row_agent = ''Devin'', total = 1, merged = 1, rejected = 0\<rparr>)
   \<and> \<lparr>row_agent = ''Devin'', total = 1, merged = 1, rejected = 0\<rparr>
       \<in> set (table1 scenario_repos scenario_prs {21})
   \<and> sum_list (map total (table1 scenario_repos scenario_prs {21})) = 2
   \<and> total_total (main scenario_repos scenario_prs scenario_comments) = 2"
proof -
  have r: "\<lparr>row_agent = ''Devin'', total = 1, merged = 1, rejected = 0\<rparr>
       \<in> set (table1 scenario_repos scenario_prs {21})"
    by code_simp
  have k: "int (length (filter (\<lambda>p. agent p \<in> set AGENTS)
      (kept scenario_repos scenario_prs {21}))) = 2"
    by code_simp
  have m: "int (length (filter (\<lambda>p. agent p \<in> set AGENTS)
      (main_kept (main scenario_repos scenario_prs scenario_comments)))) = 2"
    by code_simp
  note t = table1_aggregation [of scenario_repos scenario_prs "{21}" scenario_comments,
      unfolded Let_def]
  from t have 1: "\<forall>r\<in>set (table1 scenario_repos scenario_prs {21}).
      rejected r = total r - merged r"
    by (rule conjunct1)
  from t have 2: "sum_list (map total (table1 scenario_repos scenario_prs {21})) = 2"
    unfolding k by (elim conjE)
  from t have 3: "total_total (main scenario_repos scenario_prs scenario_comments) = 2"
    unfolding m by (elim conjE)
  from 1 [rule_format, OF r] r 2 3 show ?thesis by (intro conjI)
qed

section \<open>The two scripts against each other\<close>

lemma user_pr_id_missing_read:
  "None \<in> set (map pr_id (filter (\<lambda>c. user_type c = ''User'') (read_pr_comments comments)))
     \<longleftrightarrow> (\<exists>c\<in>set comments. user_type c = ''User'' \<and> pr_id c = None)"
proof -
  have "None \<in> set (map pr_id (filter (\<lambda>c. user_type c = ''User'') comments))
      \<longleftrightarrow> (\<exists>c\<in>set comments. user_type c = ''User'' \<and> pr_id c = None)"
    by (auto simp: image_iff)
  then show ?thesis
    by (simp only: user_pr_ids_read None_in_map_option)
qed

lemma human_commented_ids_dropna:
  assumes "\<forall>c\<in>set comments. user_type c = ''User'' \<longrightarrow> pr_id c \<noteq> None"
  shows "human_commented_ids comments =
    Inr (set (map int64_of_float (dropna (map pr_id
      (filter (\<lambda>c. user_type c = ''User'') (read_pr_comments comments))))))"
proof -
  let ?col = "map pr_id (filter (\<lambda>c. user_type c = ''User'') (read_pr_comments comments))"
  have "None \<notin> set ?col"
    unfolding user_pr_id_missing_read using assms by blast
  from astype_int_dropna [OF this] show ?thesis
    by (simp add: human_commented_ids_def)
qed

text \<open>
  Without the condition on the comments the scripts differ: \<^verbatim>\<open>samples.py\<close> stops at the
  cast, \<^verbatim>\<open>table1.py\<close> drops the missing value and goes on.
\<close>

lemma human_commented_ids_missing:
  assumes "c \<in> set comments" "user_type c = ''User''" "pr_id c = None"
  shows "human_commented_ids comments = Inl IntCastingNaNError"
proof -
  have "None \<in> set (map pr_id (filter (\<lambda>c. user_type c = ''User'') (read_pr_comments comments)))"
    unfolding user_pr_id_missing_read using assms by blast
  from astype_int_missing [OF this] show ?thesis
    by (simp add: human_commented_ids_def)
qed

text \<open>
  Claim C9, the two scripts agree. When every comment of \<^verbatim>\<open>user_type\<close> "User" has a
  \<^verbatim>\<open>pr_id\<close>, the module-level code of \<^verbatim>\<open>samples.py\<close> gets past the cast and computes the
  same set of user-commented ids as \<^verbatim>\<open>main\<close> of \<^verbatim>\<open>table1.py\<close>, the same selected and
  excluded pull requests, the same kept rows with the same \<^verbatim>\<open>is_merged\<close> column, and the
  same Table 1, row by row; the sample sizes of \<^verbatim>\<open>samples.py\<close> are the totals \<^verbatim>\<open>main\<close>
  prints.
\<close>

theorem scripts_agree:
  assumes "\<forall>c\<in>set comments. user_type c = ''User'' \<longrightarrow> pr_id c \<noteq> None"
  shows "let m = main repos prs comments in
    \<exists>hc. human_commented_ids comments = Inr hc
      \<and> hc = main_user_commented_pr_ids m
      \<and> selected repos prs = main_selected m
      \<and> excluded_ids repos prs hc = main_excluded_ids m
      \<and> kept repos prs hc = main_kept m
      \<and> table1 repos prs hc = main_table1 m
      \<and> ACCEPT_SAMPLE_SIZE repos prs hc = total_merged m
      \<and> REJECT_SAMPLE_SIZE repos prs hc = total_rejected m"
proof -
  let ?uc = "main_user_commented_pr_ids (main repos prs comments)"
  have "human_commented_ids comments = Inr ?uc"
    using human_commented_ids_dropna [OF assms]
    by (simp only: main_user_commented_pr_ids_eq)
  then show ?thesis
    unfolding Let_def main_totals main_table1_eq main_kept_eq main_excluded_ids_eq
      main_selected_eq ACCEPT_SAMPLE_SIZE_def REJECT_SAMPLE_SIZE_def
    by (intro exI [of _ ?uc]) (simp only: simp_thms)
qed

theorem scripts_agree_witness:
  "human_commented_ids scenario_comments = Inr {21}
   \<and> main_user_commented_pr_ids (main scenario_repos scenario_prs scenario_comments) = {21}
   \<and> kept scenario_repos scenario_prs {21} =
       main_kept (main scenario_repos scenario_prs scenario_comments)
   \<and> table1 scenario_repos scenario_prs {21} =
       main_table1 (main scenario_repos scenario_prs scenario_comments)
   \<and> map is_merged (main_kept (main scenario_repos scenario_prs scenario_comments)) =
       [True, True, False]"
proof -
  have h: "\<forall>c\<in>set scenario_comments. user_type c = ''User'' \<longrightarrow> pr_id c \<noteq> None"
    by (simp add: scenario_comments_def)
  have e: "human_commented_ids scenario_comments = Inr {21}" by code_simp
  have a: "map is_merged (main_kept (main scenario_repos scenario_prs scenario_comments)) =
       [True, True, False]"
    by code_simp
  from scripts_agree [OF h, of scenario_repos scenario_prs, unfolded Let_def]
  obtain hc where hc: "human_commented_ids scenario_comments = Inr hc"
    and 1: "hc = main_user_commented_pr_ids (main scenario_repos scenario_prs scenario_comments)"
    and 2: "kept scenario_repos scenario_prs hc =
       main_kept (main scenario_repos scenario_prs scenario_comments)"
    and 3: "table1 scenario_repos scenario_prs hc =
       main_table1 (main scenario_repos scenario_prs scenario_comments)"
    by blast
  from hc e have "hc = {21}" by simp
  with e 1 2 3 a show ?thesis by simp
qed

section \<open>The Sampler: the four samples\<close>

subsection \<open>The four calls of the script\<close>

lemma draw_samples_Inr:
  assumes "draw_samples draw amb repos prs hc = Inr f"
  obtains x y where
    "stratified_n_sample draw amb (combined_rejected repos prs hc) VALIDATE_AGREEMENT_SAMPLE agent
       = Inr (sample_check_rejected f, reject_remaining f)"
    "stratified_n_sample draw amb (combined_accepted repos prs hc) VALIDATE_AGREEMENT_SAMPLE agent
       = Inr (sample_check_accepts f, accept_remaining f)"
    "stratified_n_sample draw amb (reject_remaining f) (REJECT_SAMPLE_SIZE repos prs hc) agent
       = Inr (manual_check_rejected f, x)"
    "stratified_n_sample draw amb (accept_remaining f) (ACCEPT_SAMPLE_SIZE repos prs hc) agent
       = Inr (manual_check_accepted f, y)"
  using assms unfolding draw_samples_def
  by (auto split: sum.splits prod.splits)

lemma distinct_ids_kept:
  assumes "distinct (map id_pr prs)"
  shows "distinct (map id_pr (kept repos prs hc))"
proof -
  have "map id_pr (kept repos prs hc) =
      map id_pr (filter (\<lambda>p. id_pr p \<notin> excluded_ids repos prs hc) (selected repos prs))"
    by (simp add: kept_def comp_def id_pr_with_is_merged)
  then show ?thesis
    using assms by (simp add: selected_def distinct_map_filter)
qed

lemma distinct_ids_combined:
  assumes "distinct (map id_pr prs)"
  shows "distinct (map id_pr (combined_accepted repos prs hc))"
    and "distinct (map id_pr (combined_rejected repos prs hc))"
  using distinct_ids_kept [OF assms, of repos hc]
  by (simp_all add: combined_accepted_def combined_rejected_def distinct_map_filter)

lemma split_ids_disjoint:
  assumes "mset s + mset r = mset df" "distinct (map id_pr df)"
  shows "id_pr ` set s \<inter> id_pr ` set r = {}"
proof -
  have "mset (map id_pr s) + mset (map id_pr r) = mset (map id_pr df)"
    using assms(1) by (metis image_mset_union mset_map)
  from mset_split_disjoint [OF this assms(2)] show ?thesis by simp
qed

lemma split_sample_subset:
  assumes "mset s + mset r = mset df"
  shows "set s \<subseteq> set df"
proof -
  have "set_mset (mset s + mset r) = set_mset (mset df)" using assms by simp
  then show ?thesis by auto
qed

lemma manual_disjoint_from_check:
  assumes valid: "valid_draw draw"
    and d: "distinct (map id_pr pool)"
    and first: "stratified_n_sample draw amb pool n1 col = Inr (check, remaining)"
    and second: "stratified_n_sample draw amb remaining n2 col = Inr (manual, x)"
  shows "id_pr ` set manual \<inter> id_pr ` set check = {}" and "set manual \<subseteq> set remaining"
proof -
  note p1 = stratified_n_sample_Inr(1) [OF valid first]
  note p2 = stratified_n_sample_Inr(1) [OF valid second]
  from split_sample_subset [OF p2] show sub: "set manual \<subseteq> set remaining" .
  from split_ids_disjoint [OF p1 d] have "id_pr ` set check \<inter> id_pr ` set remaining = {}" .
  with sub show "id_pr ` set manual \<inter> id_pr ` set check = {}" by blast
qed

subsection \<open>A run on the table of 66 pull requests\<close>

lemma sampling_run:
  "draw_samples first_rows (Global_Generator 0) scenario_repos sampling_prs {} =
     Inr sampling_frames"
  by code_simp

lemma distinct_sampling_prs: "distinct (map id_pr sampling_prs)"
  by code_simp

text \<open>
  Claim C6. In a run of \<^verbatim>\<open>samples.py\<close> that draws its four samples, over pull requests
  with unique ids and for every valid draw of the library: the manual-check sample of the
  accepted pull requests shares no id with the agreement-check sample of the accepted
  ones, and likewise for the rejected ones, because each agreement-check sample and its
  remainder partition their pool and each manual-check sample is drawn from that
  remainder; and when the size derived from Table 1 is at least the size of the
  remainder, the manual-check sample is the whole remainder.
\<close>

theorem samples_disjoint_and_clamped:
  assumes "valid_draw draw"
    and "distinct (map id_pr prs)"
    and "draw_samples draw amb repos prs hc = Inr f"
  shows "id_pr ` set (manual_check_accepted f) \<inter> id_pr ` set (sample_check_accepts f) = {}
    \<and> id_pr ` set (manual_check_rejected f) \<inter> id_pr ` set (sample_check_rejected f) = {}
    \<and> mset (sample_check_accepts f) + mset (accept_remaining f) =
        mset (combined_accepted repos prs hc)
    \<and> mset (sample_check_rejected f) + mset (reject_remaining f) =
        mset (combined_rejected repos prs hc)
    \<and> set (manual_check_accepted f) \<subseteq> set (accept_remaining f)
    \<and> set (manual_check_rejected f) \<subseteq> set (reject_remaining f)
    \<and> (int (length (accept_remaining f)) \<le> ACCEPT_SAMPLE_SIZE repos prs hc \<longrightarrow>
         manual_check_accepted f = accept_remaining f)
    \<and> (int (length (reject_remaining f)) \<le> REJECT_SAMPLE_SIZE repos prs hc \<longrightarrow>
         manual_check_rejected f = reject_remaining f)"
proof -
  from assms(3) obtain x y where
    r1: "stratified_n_sample draw amb (combined_rejected repos prs hc) VALIDATE_AGREEMENT_SAMPLE agent
       = Inr (sample_check_rejected f, reject_remaining f)" and
    a1: "stratified_n_sample draw amb (combined_accepted repos prs hc) VALIDATE_AGREEMENT_SAMPLE agent
       = Inr (sample_check_accepts f, accept_remaining f)" and
    r2: "stratified_n_sample draw amb (reject_remaining f) (REJECT_SAMPLE_SIZE repos prs hc) agent
       = Inr (manual_check_rejected f, x)" and
    a2: "stratified_n_sample draw amb (accept_remaining f) (ACCEPT_SAMPLE_SIZE repos prs hc) agent
       = Inr (manual_check_accepted f, y)"
    by (rule draw_samples_Inr)
  note da = distinct_ids_combined(1) [OF assms(2), of repos hc]
  note dr = distinct_ids_combined(2) [OF assms(2), of repos hc]
  note ma = manual_disjoint_from_check [OF assms(1) da a1 a2]
  note mr = manual_disjoint_from_check [OF assms(1) dr r1 r2]
  note pa = stratified_n_sample_Inr(1) [OF assms(1) a1]
  note pr = stratified_n_sample_Inr(1) [OF assms(1) r1]
  have ca: "manual_check_accepted f = accept_remaining f"
    if "int (length (accept_remaining f)) \<le> ACCEPT_SAMPLE_SIZE repos prs hc"
    using a2 stratified_n_sample_all [OF that, of draw amb agent] by simp
  have cr: "manual_check_rejected f = reject_remaining f"
    if "int (length (reject_remaining f)) \<le> REJECT_SAMPLE_SIZE repos prs hc"
    using r2 stratified_n_sample_all [OF that, of draw amb agent] by simp
  from ma mr pa pr ca cr show ?thesis by (intro conjI impI)
qed

theorem samples_disjoint_and_clamped_witness:
  "valid_draw first_rows
   \<and> distinct (map id_pr sampling_prs)
   \<and> draw_samples first_rows (Global_Generator 0) scenario_repos sampling_prs {} =
       Inr sampling_frames
   \<and> map id_pr (sample_check_accepts sampling_frames) = map int [0..<30]
   \<and> map id_pr (manual_check_accepted sampling_frames) = [30, 31, 32]
   \<and> id_pr ` set (manual_check_accepted sampling_frames)
       \<inter> id_pr ` set (sample_check_accepts sampling_frames) = {}
   \<and> id_pr ` set (manual_check_rejected sampling_frames)
       \<inter> id_pr ` set (sample_check_rejected sampling_frames) = {}
   \<and> ACCEPT_SAMPLE_SIZE scenario_repos sampling_prs {} = 22
   \<and> int (length (accept_remaining sampling_frames)) = 3
   \<and> manual_check_accepted sampling_frames = accept_remaining sampling_frames"
proof -
  have sca: "map id_pr (sample_check_accepts sampling_frames) = map int [0..<30]"
    by code_simp
  have mca: "map id_pr (manual_check_accepted sampling_frames) = [30, 31, 32]"
    by code_simp
  have size: "ACCEPT_SAMPLE_SIZE scenario_repos sampling_prs {} = 22"
    by code_simp
  have len: "int (length (accept_remaining sampling_frames)) = 3"
    by code_simp
  have le: "int (length (accept_remaining sampling_frames))
      \<le> ACCEPT_SAMPLE_SIZE scenario_repos sampling_prs {}"
    unfolding size len by simp
  note t = samples_disjoint_and_clamped [OF valid_draw_first_rows distinct_sampling_prs
      sampling_run]
  note t1 = t [THEN conjunct1]
  note t2 = t [THEN conjunct2, THEN conjunct1]
  note t7 = t [THEN conjunct2, THEN conjunct2, THEN conjunct2, THEN conjunct2, THEN conjunct2,
      THEN conjunct2, THEN conjunct1, rule_format, OF le]
  from valid_draw_first_rows distinct_sampling_prs sampling_run sca mca t1 t2 size len t7
  show ?thesis by (intro conjI)
qed

subsection \<open>The seed\<close>

text \<open>
  Two runs of the script may find the process-wide generator in different states, and
  what the library draws from that generator may differ from run to run. What the
  library promises is that a generator made from the same integer seed draws the same
  indices for the same labels and sizes. The two runs are therefore given a draw each,
  and the draws are assumed to agree on the generator made from \<^verbatim>\<open>RANDOM_STATE\<close> only.
  Every call of \<^verbatim>\<open>train_test_split\<close> in the script passes \<^verbatim>\<open>random_state=RANDOM_STATE\<close>.
\<close>

lemma train_test_split_same_seed:
  assumes "\<forall>y n_train n_test.
      draw1 (RandomState RANDOM_STATE) y n_train n_test =
      draw2 (RandomState RANDOM_STATE) y n_train n_test"
  shows "train_test_split draw1 amb1 df test_size y (Some RANDOM_STATE) =
     train_test_split draw2 amb2 df test_size y (Some RANDOM_STATE)"
  by (simp add: train_test_split_def assms)

lemma stratified_n_sample_same_seed:
  assumes "\<forall>y n_train n_test.
      draw1 (RandomState RANDOM_STATE) y n_train n_test =
      draw2 (RandomState RANDOM_STATE) y n_train n_test"
  shows "stratified_n_sample draw1 amb1 df n col = stratified_n_sample draw2 amb2 df n col"
  unfolding stratified_n_sample_def
  by (simp only: train_test_split_same_seed [where ?draw1.0 = draw1 and ?draw2.0 = draw2
        and ?amb1.0 = amb1 and ?amb2.0 = amb2, OF assms])

lemma draw_samples_same_seed:
  assumes "\<forall>y n_train n_test.
      draw1 (RandomState RANDOM_STATE) y n_train n_test =
      draw2 (RandomState RANDOM_STATE) y n_train n_test"
  shows "draw_samples draw1 amb1 repos prs hc = draw_samples draw2 amb2 repos prs hc"
  unfolding draw_samples_def
  by (simp only: stratified_n_sample_same_seed [where ?draw1.0 = draw1 and ?draw2.0 = draw2
        and ?amb1.0 = amb1 and ?amb2.0 = amb2, OF assms])

text \<open>
  The second draw is a valid one, agrees with the first on every seed, and differs from
  it on the process-wide generator: a call without \<^verbatim>\<open>random_state\<close> gives the two runs
  different samples.
\<close>

lemma mset_upt_swap: "mset [b..<a + b] + mset [0..<b] = mset [0..<a + b]" for a b :: nat
proof -
  have "[0..<b + a] = [0..<b] @ [b..<b + a]"
    using upt_add_eq_append [of 0 b a] by simp
  then have "mset [0..<b + a] = mset [0..<b] + mset [b..<b + a]"
    by (simp only: mset_append)
  then show ?thesis by (simp only: add.commute [of a b] add.commute [of "mset [0..<b]"])
qed

lemma valid_draw_last_rows_unseeded: "valid_draw last_rows_unseeded"
  unfolding valid_draw_def
proof (intro allI impI)
  fix g :: generator and y :: "string list" and n_train n_test :: nat
  assume "0 < n_train \<and> 0 < n_test \<and> n_train + n_test = length y"
  then have len: "length y = n_train + n_test" by simp
  show "case last_rows_unseeded g y n_train n_test of
          (train, test) \<Rightarrow>
            mset train + mset test = mset [0..<length y] \<and> length train = n_train"
  proof (cases g)
    case (RandomState seed)
    show ?thesis
      unfolding RandomState len last_rows_unseeded_def generator.case prod.case length_upt
      by (intro conjI mset_upt_split) simp
  next
    case (Global_Generator k)
    show ?thesis
      unfolding Global_Generator len last_rows_unseeded_def generator.case prod.case length_upt
      by (intro conjI mset_upt_swap) simp
  qed
qed

lemma draws_agree_on_seeds:
  "\<forall>y n_train n_test.
      first_rows (RandomState RANDOM_STATE) y n_train n_test =
      last_rows_unseeded (RandomState RANDOM_STATE) y n_train n_test"
  by (simp add: first_rows_def last_rows_unseeded_def)

lemma unseeded_split_differs:
  "train_test_split first_rows (Global_Generator 0) two_strata_pool 2
      (map agent two_strata_pool) None
   \<noteq> train_test_split last_rows_unseeded (Global_Generator 1) two_strata_pool 2
      (map agent two_strata_pool) None"
  by code_simp

lemma samples_py_sampling_run:
  "samples_py first_rows (Global_Generator 0) scenario_repos sampling_prs [] =
     Inr \<lparr>sample_check_rejected_csv = map EXPORT_COLS (sample_check_rejected sampling_frames),
          sample_check_accepts_csv = map EXPORT_COLS (sample_check_accepts sampling_frames),
          manual_check_rejected_csv = map EXPORT_COLS (manual_check_rejected sampling_frames),
          manual_check_accepted_csv = map EXPORT_COLS (manual_check_accepted sampling_frames)\<rparr>"
proof -
  have "human_commented_ids [] = Inr {}" by code_simp
  then show ?thesis by (simp add: samples_py_def sampling_run)
qed

text \<open>
  Claim C8, determinism under the fixed seed. Take two runs over the same tables, each
  with its own state of the process-wide generator and its own draws of the library,
  the draws agreeing on the generator made from the seed 72. Then every call of
  \<^verbatim>\<open>stratified_n_sample\<close> returns the same pair in both runs, the four frames are the
  same, the rows written to the four files are the same (or both runs end in the same
  exception), and so are the bytes the writer makes of them.
\<close>

theorem samples_py_deterministic:
  assumes "\<forall>y n_train n_test.
      draw1 (RandomState RANDOM_STATE) y n_train n_test =
      draw2 (RandomState RANDOM_STATE) y n_train n_test"
  shows "stratified_n_sample draw1 amb1 df n col = stratified_n_sample draw2 amb2 df n col
   \<and> draw_samples draw1 amb1 repos prs hc = draw_samples draw2 amb2 repos prs hc
   \<and> samples_py draw1 amb1 repos prs comments = samples_py draw2 amb2 repos prs comments
   \<and> map_sum (\<lambda>e. e) (files_written to_csv) (samples_py draw1 amb1 repos prs comments) =
       map_sum (\<lambda>e. e) (files_written to_csv) (samples_py draw2 amb2 repos prs comments)"
proof -
  have "samples_py draw1 amb1 repos prs comments = samples_py draw2 amb2 repos prs comments"
    unfolding samples_py_def
    by (simp only: draw_samples_same_seed [where ?draw1.0 = draw1 and ?draw2.0 = draw2
        and ?amb1.0 = amb1 and ?amb2.0 = amb2, OF assms])
  with stratified_n_sample_same_seed [where ?draw1.0 = draw1 and ?draw2.0 = draw2
      and ?amb1.0 = amb1 and ?amb2.0 = amb2 and df = df and n = n and col = col, OF assms]
    draw_samples_same_seed [where ?draw1.0 = draw1 and ?draw2.0 = draw2
      and ?amb1.0 = amb1 and ?amb2.0 = amb2 and repos = repos and prs = prs and hc = hc,
      OF assms]
  show ?thesis by simp
qed

theorem samples_py_deterministic_witness:
  "(\<forall>y n_train n_test.
      first_rows (RandomState RANDOM_STATE) y n_train n_test =
      last_rows_unseeded (RandomState RANDOM_STATE) y n_train n_test)
   \<and> valid_draw first_rows
   \<and> valid_draw last_rows_unseeded
   \<and> train_test_split first_rows (Global_Generator 0) two_strata_pool 2
        (map agent two_strata_pool) None
      \<noteq> train_test_split last_rows_unseeded (Global_Generator 1) two_strata_pool 2
        (map agent two_strata_pool) None
   \<and> int (length (combined_accepted scenario_repos sampling_prs {})) = 33
   \<and> int (length (combined_rejected scenario_repos sampling_prs {})) = 33
   \<and> samples_py first_rows (Global_Generator 0) scenario_repos sampling_prs [] =
     Inr \<lparr>sample_check_rejected_csv = map EXPORT_COLS (sample_check_rejected sampling_frames),
          sample_check_accepts_csv = map EXPORT_COLS (sample_check_accepts sampling_frames),
          manual_check_rejected_csv = map EXPORT_COLS (manual_check_rejected sampling_frames),
          manual_check_accepted_csv = map EXPORT_COLS (manual_check_accepted sampling_frames)\<rparr>
   \<and> samples_py last_rows_unseeded (Global_Generator 1) scenario_repos sampling_prs [] =
     Inr \<lparr>sample_check_rejected_csv = map EXPORT_COLS (sample_check_rejected sampling_frames),
          sample_check_accepts_csv = map EXPORT_COLS (sample_check_accepts sampling_frames),
          manual_check_rejected_csv = map EXPORT_COLS (manual_check_rejected sampling_frames),
          manual_check_accepted_csv = map EXPORT_COLS (manual_check_accepted sampling_frames)\<rparr>"
proof -
  have la: "int (length (combined_accepted scenario_repos sampling_prs {})) = 33"
    by code_simp
  have lr: "int (length (combined_rejected scenario_repos sampling_prs {})) = 33"
    by code_simp
  note t = samples_py_deterministic [where ?draw1.0 = first_rows
      and ?draw2.0 = last_rows_unseeded
      and ?amb1.0 = "Global_Generator 0" and ?amb2.0 = "Global_Generator 1"
      and repos = scenario_repos and prs = sampling_prs and comments = "[]",
      OF draws_agree_on_seeds, THEN conjunct2, THEN conjunct2, THEN conjunct1]
  note second = samples_py_sampling_run [unfolded t]
  from draws_agree_on_seeds valid_draw_first_rows valid_draw_last_rows_unseeded
    unseeded_split_differs la lr samples_py_sampling_run second
  show ?thesis by (intro conjI)
qed

subsection \<open>Sizes derived from Table 1 against the pools\<close>

lemma ACCEPT_SAMPLE_SIZE_eq:
  "ACCEPT_SAMPLE_SIZE repos prs hc =
     int (length (filter (\<lambda>p. agent p \<in> set AGENTS) (combined_accepted repos prs hc)))"
  by (simp add: ACCEPT_SAMPLE_SIZE_def sum_merged_table1 combined_accepted_def conj_commute)

lemma REJECT_SAMPLE_SIZE_eq:
  "REJECT_SAMPLE_SIZE repos prs hc =
     int (length (filter (\<lambda>p. agent p \<in> set AGENTS) (combined_rejected repos prs hc)))"
  by (simp add: REJECT_SAMPLE_SIZE_def sum_rejected_table1 combined_rejected_def conj_commute)

text \<open>
  Claim C10. The sizes of the manual-check samples count the kept pull requests of roster
  agents only, while the pools hold the kept pull requests of all agents: the accept size
  is the number of merged kept pull requests of roster agents, the reject size the number
  of unmerged ones, so each is at most the size of its pool. And there is a run (over
  unique ids, with a valid draw) in which each of the four samples holds a pull request
  of an agent outside the roster.
\<close>

theorem sample_sizes_count_roster_only:
  "ACCEPT_SAMPLE_SIZE repos prs hc =
     int (length (filter (\<lambda>p. agent p \<in> set AGENTS) (combined_accepted repos prs hc)))
   \<and> REJECT_SAMPLE_SIZE repos prs hc =
     int (length (filter (\<lambda>p. agent p \<in> set AGENTS) (combined_rejected repos prs hc)))
   \<and> ACCEPT_SAMPLE_SIZE repos prs hc \<le> int (length (combined_accepted repos prs hc))
   \<and> REJECT_SAMPLE_SIZE repos prs hc \<le> int (length (combined_rejected repos prs hc))
   \<and> (\<exists>draw amb repos' prs' hc' f.
        valid_draw draw
        \<and> distinct (map id_pr prs')
        \<and> draw_samples draw amb repos' prs' hc' = Inr f
        \<and> (\<exists>p\<in>set (sample_check_rejected f). agent p \<notin> set AGENTS)
        \<and> (\<exists>p\<in>set (sample_check_accepts f). agent p \<notin> set AGENTS)
        \<and> (\<exists>p\<in>set (manual_check_rejected f). agent p \<notin> set AGENTS)
        \<and> (\<exists>p\<in>set (manual_check_accepted f). agent p \<notin> set AGENTS))"
proof -
  have 1: "\<exists>p\<in>set (sample_check_rejected sampling_frames). agent p \<notin> set AGENTS"
    by code_simp
  have 2: "\<exists>p\<in>set (sample_check_accepts sampling_frames). agent p \<notin> set AGENTS"
    by code_simp
  have 3: "\<exists>p\<in>set (manual_check_rejected sampling_frames). agent p \<notin> set AGENTS"
    by code_simp
  have 4: "\<exists>p\<in>set (manual_check_accepted sampling_frames). agent p \<notin> set AGENTS"
    by code_simp
  have ex: "\<exists>draw amb repos' prs' hc' f.
        valid_draw draw
        \<and> distinct (map id_pr prs')
        \<and> draw_samples draw amb repos' prs' hc' = Inr f
        \<and> (\<exists>p\<in>set (sample_check_rejected f). agent p \<notin> set AGENTS)
        \<and> (\<exists>p\<in>set (sample_check_accepts f). agent p \<notin> set AGENTS)
        \<and> (\<exists>p\<in>set (manual_check_rejected f). agent p \<notin> set AGENTS)
        \<and> (\<exists>p\<in>set (manual_check_accepted f). agent p \<notin> set AGENTS)"
    using valid_draw_first_rows distinct_sampling_prs sampling_run 1 2 3 4 by blast
  have a: "ACCEPT_SAMPLE_SIZE repos prs hc \<le> int (length (combined_accepted repos prs hc))"
    unfolding ACCEPT_SAMPLE_SIZE_eq by simp
  have r: "REJECT_SAMPLE_SIZE repos prs hc \<le> int (length (combined_rejected repos prs hc))"
    unfolding REJECT_SAMPLE_SIZE_eq by simp
  from ACCEPT_SAMPLE_SIZE_eq [of repos prs hc] REJECT_SAMPLE_SIZE_eq [of repos prs hc] a r ex
  show ?thesis by (intro conjI)
qed

theorem sample_sizes_count_roster_only_witness:
  "ACCEPT_SAMPLE_SIZE scenario_repos sampling_prs {} = 22
   \<and> int (length (combined_accepted scenario_repos sampling_prs {})) = 33
   \<and> ACCEPT_SAMPLE_SIZE scenario_repos sampling_prs {}
       \<le> int (length (combined_accepted scenario_repos sampling_prs {}))
   \<and> REJECT_SAMPLE_SIZE scenario_repos sampling_prs {} = 22
   \<and> int (length (combined_rejected scenario_repos sampling_prs {})) = 33
   \<and> REJECT_SAMPLE_SIZE scenario_repos sampling_prs {}
       \<le> int (length (combined_rejected scenario_repos sampling_prs {}))"
proof -
  have a: "int (length (filter (\<lambda>p. agent p \<in> set AGENTS)
      (combined_accepted scenario_repos sampling_prs {}))) = 22"
    by code_simp
  have r: "int (length (filter (\<lambda>p. agent p \<in> set AGENTS)
      (combined_rejected scenario_repos sampling_prs {}))) = 22"
    by code_simp
  have la: "int (length (combined_accepted scenario_repos sampling_prs {})) = 33"
    by code_simp
  have lr: "int (length (combined_rejected scenario_repos sampling_prs {})) = 33"
    by code_simp
  note t = sample_sizes_count_roster_only [of scenario_repos sampling_prs "{}"]
  note t1 = t [THEN conjunct1, unfolded a]
  note t2 = t [THEN conjunct2, THEN conjunct1, unfolded r]
  note t3 = t [THEN conjunct2, THEN conjunct2, THEN conjunct1]
  note t4 = t [THEN conjunct2, THEN conjunct2, THEN conjunct2, THEN conjunct1]
  from t1 la t3 t2 lr t4 show ?thesis by (intro conjI)
qed

end
